theory Spec2Isabelle
  imports Main "HOL-Library.Sublist"
begin

section \<open>create-bucket-cms: the installer's helpers and orchestrator\<close>

text \<open>
  The development follows \<^verbatim>\<open>src/util.js\<close> (the helpers), \<^verbatim>\<open>src/index.js\<close> (the
  orchestrator without auth adapters) and the second orchestrator kept in
  \<^verbatim>\<open>src/README.md\<close> (the one that detects the auth solution).  Console output
  (\<^verbatim>\<open>chalk\<close>, \<^verbatim>\<open>ora\<close>) is not modelled, except for the one call that throws.
\<close>

subsection \<open>slugify\<close>

text \<open>
  A JavaScript string is modelled as a \<^typ>\<open>string\<close> whose characters are the code units
  0..255.  \<^verbatim>\<open>toLowerCase\<close> maps A-Z and the upper-case letters of Latin-1 to their
  lower-case forms; \<^verbatim>\<open>\s\<close> is TAB, LF, VT, FF, CR, SPACE and NBSP; \<^verbatim>\<open>\w\<close> is
  \<^verbatim>\<open>[A-Za-z0-9_]\<close>.
\<close>

definition toLowerCase_char :: "char \<Rightarrow> char" where
  "toLowerCase_char c =
     (let n = (of_char c :: nat)
      in if (65 \<le> n \<and> n \<le> 90) \<or> (192 \<le> n \<and> n \<le> 222 \<and> n \<noteq> 215)
         then char_of (n + 32) else c)"

definition toLowerCase :: "string \<Rightarrow> string" where
  "toLowerCase s = map toLowerCase_char s"

definition is_space :: "char \<Rightarrow> bool" where
  "is_space c = ((of_char c :: nat) \<in> {9, 10, 11, 12, 13, 32, 160})"

definition is_word :: "char \<Rightarrow> bool" where
  "is_word c =
     (let n = (of_char c :: nat)
      in (48 \<le> n \<and> n \<le> 57) \<or> (65 \<le> n \<and> n \<le> 90) \<or> n = 95 \<or> (97 \<le> n \<and> n \<le> 122))"

definition is_hyphen :: "char \<Rightarrow> bool" where
  "is_hyphen c = (c = CHR ''-'')"

text \<open>
  \<^verbatim>\<open>.replace(/[class]+/g, r)\<close>: every maximal non-empty run of characters of the class
  is replaced by \<open>r\<close>.
\<close>

function replace_runs :: "(char \<Rightarrow> bool) \<Rightarrow> string \<Rightarrow> string \<Rightarrow> string" where
  "replace_runs P r [] = []"
| "replace_runs P r (c # cs) =
     (if P c then r @ replace_runs P r (dropWhile P cs) else c # replace_runs P r cs)"
  by pat_completeness auto
termination
  by (relation "measure (\<lambda>(P, r, s). length s)")
     (auto simp: less_Suc_eq_le length_dropWhile_le)

text \<open>\<^verbatim>\<open>.replace(/\-\-+/g, "-")\<close>: a run of two or more hyphens becomes one hyphen.\<close>

function collapse_hyphens :: "string \<Rightarrow> string" where
  "collapse_hyphens [] = []"
| "collapse_hyphens [c] = [c]"
| "collapse_hyphens (c # d # cs) =
     (if is_hyphen c \<and> is_hyphen d then CHR ''-'' # collapse_hyphens (dropWhile is_hyphen cs)
      else c # collapse_hyphens (d # cs))"
  by pat_completeness auto
termination
  by (relation "measure length")
     (auto simp: less_Suc_eq_le intro!: le_SucI length_dropWhile_le)

text \<open>\<^verbatim>\<open>.replace(/^-+/, "")\<close> and \<^verbatim>\<open>.replace(/-+$/, "")\<close>.\<close>

definition trim_start :: "string \<Rightarrow> string" where
  "trim_start s = dropWhile is_hyphen s"

definition trim_end :: "string \<Rightarrow> string" where
  "trim_end s = rev (dropWhile is_hyphen (rev s))"

definition slugify :: "string \<Rightarrow> string" where
  "slugify str =
     trim_end (trim_start (collapse_hyphens
       (replace_runs (\<lambda>c. \<not> (is_word c \<or> is_hyphen c)) []
         (replace_runs is_space ''-'' (toLowerCase str)))))"

text \<open>The shape of a slug: what \<open>slugify\<close> produces and leaves alone.\<close>

fun nodouble :: "string \<Rightarrow> bool" where
  "nodouble [] = True"
| "nodouble [c] = True"
| "nodouble (c # d # cs) = (\<not> (is_hyphen c \<and> is_hyphen d) \<and> nodouble (d # cs))"

definition is_upper :: "char \<Rightarrow> bool" where
  "is_upper c = (65 \<le> (of_char c :: nat) \<and> (of_char c :: nat) \<le> 90)"

definition slug_char :: "char \<Rightarrow> bool" where
  "slug_char c = ((is_word c \<or> is_hyphen c) \<and> \<not> is_upper c)"

definition slug_normal :: "string \<Rightarrow> bool" where
  "slug_normal s =
     ((\<forall>c \<in> set s. slug_char c) \<and> nodouble s \<and>
      (s = [] \<or> (\<not> is_hyphen (hd s) \<and> \<not> is_hyphen (last s))))"

subsection \<open>Paths\<close>

text \<open>
  A path is the list of its segments, relative to the working directory: \<^verbatim>\<open>./\<close> is the
  empty list and \<^verbatim>\<open>path.join(dir, "a", "b")\<close> appends the segments \<open>a\<close> and \<open>b\<close>.
  What is found at a path is a file with its content, a directory, or nothing.
\<close>

type_synonym path = "string list"

definition path_join :: "path \<Rightarrow> string list \<Rightarrow> path" where
  "path_join dir names = dir @ names"

datatype node = FileNode string | DirNode

type_synonym filesystem = "path \<Rightarrow> node option"

subsection \<open>Auth-profile selection\<close>

text \<open>
  The parsed \<^verbatim>\<open>package.json\<close>: its name and its dependencies, each of which may be
  absent, the dependencies a map from package name to version string.  The value of
  \<^verbatim>\<open>packageJson.dependencies && packageJson.dependencies["next-auth"]\<close> is
  \<^verbatim>\<open>undefined\<close> (\<open>None\<close>) or the version; the \<^verbatim>\<open>if\<close> chain of the orchestrator tests
  it for truthiness, and the empty string is falsy.  \<open>selectAuthProfile\<close> is that chain (it
  occurs twice in the orchestrator, for the report and for the copy of the adapter);
  \<open>declared\<close> is the membership test of the spec.
\<close>

datatype auth_profile = NextAuth | Clerk | LocalhostBypass

record package_json =
  pj_name :: "string option"
  pj_dependencies :: "(string \<rightharpoonup> string) option"

definition truthy :: "string option \<Rightarrow> bool" where
  "truthy v = (case v of None \<Rightarrow> False | Some s \<Rightarrow> s \<noteq> [])"

definition hasNextAuth :: "package_json \<Rightarrow> string option" where
  "hasNextAuth packageJson =
     (case pj_dependencies packageJson of None \<Rightarrow> None | Some deps \<Rightarrow> deps ''next-auth'')"

definition hasClerk :: "package_json \<Rightarrow> string option" where
  "hasClerk packageJson =
     (case pj_dependencies packageJson of None \<Rightarrow> None | Some deps \<Rightarrow> deps ''@clerk/nextjs'')"

definition selectAuthProfile :: "package_json \<Rightarrow> auth_profile" where
  "selectAuthProfile packageJson =
     (if truthy (hasNextAuth packageJson) then NextAuth
      else if truthy (hasClerk packageJson) then Clerk
      else LocalhostBypass)"

definition declared :: "package_json \<Rightarrow> string \<Rightarrow> bool" where
  "declared packageJson dep =
     (case pj_dependencies packageJson of None \<Rightarrow> False | Some deps \<Rightarrow> deps dep \<noteq> None)"

subsection \<open>The directory tree and getAppDirectoryPath\<close>

text \<open>
  A directory is the list of its entries in the order in which \<^verbatim>\<open>fs.readdir\<close> returns
  them; an entry is a file (name and content) or a directory (name and entries), and
  \<^verbatim>\<open>item.isDirectory()\<close> is the constructor \<open>Dir\<close>.  The tree is finite and has no
  cycle.  \<open>fs_of_tree\<close> is the file system a tree stands for and \<open>readdir\<close> the listing
  at a path.

  \<open>dirsToCheck\<close> holds each pushed path together with the listing that \<^verbatim>\<open>fs.readdir\<close>
  returns for it; the end of the JavaScript array, where \<^verbatim>\<open>push\<close> and \<^verbatim>\<open>pop\<close> work, is
  the head of the list.  \<open>scan_items\<close> is the \<^verbatim>\<open>for\<close> loop over the items of the popped
  directory (\<open>Inl\<close> is its early return) and \<open>while_dirsToCheck\<close> the \<^verbatim>\<open>while\<close> loop.
\<close>

datatype entry = File string string | Dir string "entry list"

fun entry_name :: "entry \<Rightarrow> string" where
  "entry_name (File n c) = n"
| "entry_name (Dir n es) = n"

fun fs_of_tree :: "entry list \<Rightarrow> filesystem" where
  "fs_of_tree es [] = Some DirNode"
| "fs_of_tree es (n # p) =
     (case find (\<lambda>e. entry_name e = n) es of
        None \<Rightarrow> None
      | Some (File m c) \<Rightarrow> (if p = [] then Some (FileNode c) else None)
      | Some (Dir m es') \<Rightarrow> fs_of_tree es' p)"

fun readdir :: "entry list \<Rightarrow> path \<Rightarrow> entry list option" where
  "readdir es [] = Some es"
| "readdir es (n # p) =
     (case find (\<lambda>e. entry_name e = n) es of
        Some (Dir m es') \<Rightarrow> readdir es' p
      | _ \<Rightarrow> None)"

fun scan_items :: "path \<Rightarrow> entry list \<Rightarrow> (path \<times> entry list) list
    \<Rightarrow> path + (path \<times> entry list) list" where
  "scan_items dir [] dirsToCheck = Inr dirsToCheck"
| "scan_items dir (File n c # items) dirsToCheck = scan_items dir items dirsToCheck"
| "scan_items dir (Dir n es # items) dirsToCheck =
     (if n = ''app'' then Inl (path_join dir [n])
      else scan_items dir items ((path_join dir [n], es) # dirsToCheck))"

fun tree_size :: "entry list \<Rightarrow> nat" where
  "tree_size [] = 0"
| "tree_size (File n c # items) = tree_size items"
| "tree_size (Dir n es # items) = Suc (tree_size es + tree_size items)"

fun stack_size :: "(path \<times> entry list) list \<Rightarrow> nat" where
  "stack_size [] = 0"
| "stack_size ((dir, items) # rest) = Suc (tree_size items + stack_size rest)"

function while_dirsToCheck :: "(path \<times> entry list) list \<Rightarrow> path option" where
  "while_dirsToCheck [] = None"
| "while_dirsToCheck ((dir, items) # rest) =
     (case scan_items dir items rest of
        Inl fullPath \<Rightarrow> Some fullPath
      | Inr dirsToCheck \<Rightarrow> while_dirsToCheck dirsToCheck)"
  by pat_completeness auto
termination
proof (relation "measure stack_size")
  show "wf (measure stack_size)" by simp
next
  fix dir items rest dirsToCheck
  assume "scan_items dir items rest = Inr dirsToCheck"
  then have "stack_size dirsToCheck \<le> tree_size items + stack_size rest"
    by (induction dir items rest rule: scan_items.induct) (auto split: if_splits)
  then show "(dirsToCheck, (dir, items) # rest) \<in> measure stack_size" by simp
qed

definition getAppDirectoryPath :: "path \<Rightarrow> entry list \<Rightarrow> path option" where
  "getAppDirectoryPath startDir items = while_dirsToCheck [(startDir, items)]"


text \<open>The directories of a tree, each with its path and name.\<close>

fun dirs_of :: "path \<Rightarrow> entry \<Rightarrow> (path \<times> string) list" where
  "dirs_of dir (File n c) = []"
| "dirs_of dir (Dir n es) =
     (path_join dir [n], n) # concat (map (dirs_of (path_join dir [n])) es)"

definition all_dirs :: "path \<Rightarrow> entry list \<Rightarrow> (path \<times> string) list" where
  "all_dirs dir items = concat (map (dirs_of dir) items)"

definition candidates :: "path \<Rightarrow> entry list \<Rightarrow> path list" where
  "candidates dir items = map fst (filter (\<lambda>(p, n). n = ''app'') (all_dirs dir items))"

text \<open>The order of discovery, following the spec's words.\<close>

fun subdirs :: "path \<Rightarrow> entry list \<Rightarrow> (path \<times> string \<times> entry list) list" where
  "subdirs dir [] = []"
| "subdirs dir (File n c # items) = subdirs dir items"
| "subdirs dir (Dir n es # items) = (path_join dir [n], n, es) # subdirs dir items"

function lifo_discovery :: "(path \<times> entry list) list \<Rightarrow> (path \<times> string) list" where
  "lifo_discovery [] = []"
| "lifo_discovery ((dir, items) # rest) =
     map (\<lambda>(p, n, es). (p, n)) (subdirs dir items) @
     lifo_discovery (rev (map (\<lambda>(p, n, es). (p, es)) (subdirs dir items)) @ rest)"
  by pat_completeness auto
termination
proof (relation "measure stack_size")
  show "wf (measure stack_size)" by simp
next
  fix dir items rest
  have app: "stack_size (a @ b) = stack_size a + stack_size b" for a b
    by (induction a rule: stack_size.induct) auto
  have rev: "stack_size (rev a) = stack_size a" for a
    by (induction a rule: stack_size.induct) (auto simp: app)
  have "stack_size (map (\<lambda>(p, n, es). (p, es)) (subdirs dir items)) = tree_size items"
    by (induction dir items rule: subdirs.induct) auto
  then show "(rev (map (\<lambda>(p, n, es). (p, es)) (subdirs dir items)) @ rest, (dir, items) # rest)
      \<in> measure stack_size"
    by (simp add: app rev)
qed

definition first_discovered :: "path \<Rightarrow> entry list \<Rightarrow> path option" where
  "first_discovered startDir items =
     map_option fst (find (\<lambda>(p, n). n = ''app'') (lifo_discovery [(startDir, items)]))"

subsection \<open>The file system and effects\<close>

text \<open>
  The file system is the tree of the working directory, and \<open>files\<close> tells what is found
  at each path of it.  The world of a run is the file system together with the calls made so
  far to \<^verbatim>\<open>fs-extra\<close>, \<^verbatim>\<open>execa\<close> and \<^verbatim>\<open>git\<close>, oldest first; a call is recorded when it
  is made, whether it succeeds or not.  An async function is a function from the world to a
  result and the new world; a rejected promise is the result \<open>Inl\<close> of an error, and
  \<open>bind\<close> is \<^verbatim>\<open>await\<close> inside one \<^verbatim>\<open>try\<close> block: the first error ends the sequence.
\<close>

datatype call =
    Mkdir path | EnsureDir path | Copy path path | Remove path
  | WriteFile path string | AppendFile path string
  | Execa string "string list" | GitClone path

datatype error = ENOENT | EEXIST | EISDIR | ENOTDIR | ECOPY | TypeError | SyntaxError
  | RangeError | FetchError | ProcessError

record world =
  tree :: "entry list"
  trace :: "call list"

definition files :: "world \<Rightarrow> filesystem" where
  "files w = fs_of_tree (tree w)"

type_synonym 'a io = "world \<Rightarrow> (error + 'a) \<times> world"

definition return :: "'a \<Rightarrow> 'a io" where
  "return x = (\<lambda>w. (Inr x, w))"

definition throw :: "error \<Rightarrow> 'a io" where
  "throw e = (\<lambda>w. (Inl e, w))"

definition bind :: "'a io \<Rightarrow> ('a \<Rightarrow> 'b io) \<Rightarrow> 'b io" where
  "bind m f = (\<lambda>w. case m w of (Inl e, w') \<Rightarrow> (Inl e, w') | (Inr x, w') \<Rightarrow> f x w')"

fun seq :: "unit io list \<Rightarrow> unit io" where
  "seq [] = return ()"
| "seq (step # steps) = bind step (\<lambda>_. seq steps)"

definition called :: "call \<Rightarrow> world \<Rightarrow> world" where
  "called op w = w\<lparr>trace := trace w @ [op]\<rparr>"

definition existsSync :: "world \<Rightarrow> path \<Rightarrow> bool" where
  "existsSync w p = (files w p \<noteq> None)"

definition is_file :: "node option \<Rightarrow> bool" where
  "is_file n = (case n of Some (FileNode c) \<Rightarrow> True | _ \<Rightarrow> False)"

text \<open>
  Changes of a listing and of the tree.  \<open>put_entry\<close> puts an entry in the place of the
  one that has its name, or after the others when no entry has it (the order of a listing
  matters to \<open>getAppDirectoryPath\<close> only, which reads the tree before any change);
  \<open>del_entry\<close> takes a name out of a listing; \<open>modify\<close> changes the listing of the
  directory at a path and leaves the tree alone when there is no such directory;
  \<open>make_dirs\<close> creates the missing directories along a path, as far as no file is in the
  way.
\<close>

fun put_entry :: "entry \<Rightarrow> entry list \<Rightarrow> entry list" where
  "put_entry e [] = [e]"
| "put_entry e (x # xs) = (if entry_name x = entry_name e then e # xs else x # put_entry e xs)"

definition del_entry :: "string \<Rightarrow> entry list \<Rightarrow> entry list" where
  "del_entry n es = filter (\<lambda>e. entry_name e \<noteq> n) es"

fun modify :: "path \<Rightarrow> (entry list \<Rightarrow> entry list) \<Rightarrow> entry list \<Rightarrow> entry list" where
  "modify [] f es = f es"
| "modify (n # p) f es =
     (case find (\<lambda>e. entry_name e = n) es of
        Some (Dir m es') \<Rightarrow> put_entry (Dir m (modify p f es')) es
      | _ \<Rightarrow> es)"

fun make_dirs :: "path \<Rightarrow> entry list \<Rightarrow> entry list" where
  "make_dirs [] es = es"
| "make_dirs (n # p) es =
     (case find (\<lambda>e. entry_name e = n) es of
        None \<Rightarrow> put_entry (Dir n (make_dirs p [])) es
      | Some (Dir m es') \<Rightarrow> put_entry (Dir m (make_dirs p es')) es
      | Some (File m c) \<Rightarrow> es)"

text \<open>
  \<^verbatim>\<open>fs.writeFile\<close> and \<^verbatim>\<open>fs.appendFile\<close> open the file at \<open>p\<close>, creating it when it
  is missing: the directory that holds it must exist (\<^verbatim>\<open>ENOENT\<close> when nothing is there,
  \<^verbatim>\<open>ENOTDIR\<close> when a file is there) and \<open>p\<close> must not be a directory (\<^verbatim>\<open>EISDIR\<close>).
\<close>

definition writeFile :: "path \<Rightarrow> string \<Rightarrow> unit io" where
  "writeFile p data = (\<lambda>w.
     let w' = called (WriteFile p data) w
     in case files w (butlast p) of
          None \<Rightarrow> (Inl ENOENT, w')
        | Some (FileNode c) \<Rightarrow> (Inl ENOTDIR, w')
        | Some DirNode \<Rightarrow>
            (case files w p of
               Some DirNode \<Rightarrow> (Inl EISDIR, w')
             | _ \<Rightarrow> (Inr (), w'\<lparr>tree := modify (butlast p) (put_entry (File (last p) data)) (tree w)\<rparr>)))"

definition appendFile :: "path \<Rightarrow> string \<Rightarrow> unit io" where
  "appendFile p data = (\<lambda>w.
     let w' = called (AppendFile p data) w
     in case files w (butlast p) of
          None \<Rightarrow> (Inl ENOENT, w')
        | Some (FileNode c) \<Rightarrow> (Inl ENOTDIR, w')
        | Some DirNode \<Rightarrow>
            (case files w p of
               Some DirNode \<Rightarrow> (Inl EISDIR, w')
             | Some (FileNode old) \<Rightarrow>
                 (Inr (), w'\<lparr>tree := modify (butlast p) (put_entry (File (last p) (old @ data))) (tree w)\<rparr>)
             | None \<Rightarrow>
                 (Inr (), w'\<lparr>tree := modify (butlast p) (put_entry (File (last p) data)) (tree w)\<rparr>)))"

text \<open>
  \<open>writeEnvVariables\<close>: the object \<open>envVariables\<close> is the list of its entries in the
  order of \<^verbatim>\<open>Object.entries\<close>, keys and values being strings.
\<close>

definition newline :: string where
  "newline = [CHR 0x0A]"

fun join :: "string \<Rightarrow> string list \<Rightarrow> string" where
  "join sep [] = []"
| "join sep [x] = x"
| "join sep (x # y # ys) = x @ sep @ join sep (y # ys)"

definition entry_line :: "string \<times> string \<Rightarrow> string" where
  "entry_line = (\<lambda>(key, value). key @ ''='' @ value)"

definition envData :: "(string \<times> string) list \<Rightarrow> string" where
  "envData envVariables = join newline (map entry_line envVariables)"

definition writeEnvVariables :: "(string \<times> string) list \<Rightarrow> path \<Rightarrow> unit io" where
  "writeEnvVariables envVariables projectDir = (\<lambda>w.
     let envPath = path_join projectDir [''.env.local'']
     in if existsSync w envPath
        then appendFile envPath (newline @ envData envVariables) w
        else writeFile envPath (envData envVariables) w)"

text \<open>The lines of a file's content, as \<^verbatim>\<open>split\<close> at the newline gives them.\<close>

fun split_lines :: "string \<Rightarrow> string list" where
  "split_lines [] = [[]]"
| "split_lines (c # cs) =
     (if c = CHR 0x0A then [] # split_lines cs
      else (case split_lines cs of [] \<Rightarrow> [[c]] | l # ls \<Rightarrow> (c # l) # ls))"

definition line_count :: "string \<Rightarrow> nat" where
  "line_count s = length (split_lines s)"

definition newline_free :: "string \<Rightarrow> bool" where
  "newline_free s = (CHR 0x0A \<notin> set s)"

definition content_at :: "world \<Rightarrow> path \<Rightarrow> string option" where
  "content_at w p = (case files w p of Some (FileNode c) \<Rightarrow> Some c | _ \<Rightarrow> None)"

subsection \<open>fs-extra\<close>

text \<open>
  \<^verbatim>\<open>fs.remove\<close> deletes a path and everything below it and accepts a missing path (the
  working directory itself is never its argument and is left alone).  \<^verbatim>\<open>fs.mkdir\<close>
  creates one directory: it rejects an existing path and a path whose parent is missing or is
  a file.  \<^verbatim>\<open>fs.ensureDir\<close> creates a directory and the missing ones above it, and rejects
  a path with a file on it.
\<close>

definition remove :: "path \<Rightarrow> unit io" where
  "remove p = (\<lambda>w.
     (Inr (), (called (Remove p) w)\<lparr>tree :=
        (if p = [] then tree w else modify (butlast p) (del_entry (last p)) (tree w))\<rparr>))"

definition mkdir :: "path \<Rightarrow> unit io" where
  "mkdir p = (\<lambda>w.
     let w' = called (Mkdir p) w
     in if files w p \<noteq> None then (Inl EEXIST, w')
        else case files w (butlast p) of
               None \<Rightarrow> (Inl ENOENT, w')
             | Some (FileNode c) \<Rightarrow> (Inl ENOTDIR, w')
             | Some DirNode \<Rightarrow>
                 (Inr (), w'\<lparr>tree := modify (butlast p) (put_entry (Dir (last p) [])) (tree w)\<rparr>))"

definition ensureDir :: "path \<Rightarrow> unit io" where
  "ensureDir p = (\<lambda>w.
     let w' = called (EnsureDir p) w
     in if is_file (files w p) then (Inl EEXIST, w')
        else if list_ex (\<lambda>q. is_file (files w q)) (prefixes p) then (Inl ENOTDIR, w')
        else (Inr (), w'\<lparr>tree := make_dirs p (tree w)\<rparr>))"

text \<open>
  \<^verbatim>\<open>fs.copy\<close> (overwriting, its default).  It rejects a missing source, a destination
  that has a file above it, a destination that is the source or lies below it, a file as the
  source where the destination is a directory and a directory as the source where the
  destination is a file; nothing has been copied then.  Otherwise it creates the missing
  directories above the destination and copies: a file replaces the file at the destination;
  the items of a directory are merged into the destination directory, each by the same rules
  (\<open>merge_entries\<close>, whose second result tells whether every item was accepted).  The items
  are taken in the order of the listing and the copy stops at the first item that is
  rejected; what was copied before it stays.
\<close>

fun merge_entries :: "entry list \<Rightarrow> entry list \<Rightarrow> entry list \<times> bool" where
  "merge_entries [] ds = (ds, True)"
| "merge_entries (File n c # items) ds =
     (case find (\<lambda>e. entry_name e = n) ds of
        Some (Dir m es') \<Rightarrow> (ds, False)
      | _ \<Rightarrow> merge_entries items (put_entry (File n c) ds))"
| "merge_entries (Dir n es # items) ds =
     (case find (\<lambda>e. entry_name e = n) ds of
        Some (File m c) \<Rightarrow> (ds, False)
      | Some (Dir m es') \<Rightarrow>
          (case merge_entries es es' of
             (merged, True) \<Rightarrow> merge_entries items (put_entry (Dir n merged) ds)
           | (merged, False) \<Rightarrow> (put_entry (Dir n merged) ds, False))
      | None \<Rightarrow>
          (case merge_entries es [] of
             (merged, True) \<Rightarrow> merge_entries items (put_entry (Dir n merged) ds)
           | (merged, False) \<Rightarrow> (put_entry (Dir n merged) ds, False)))"

definition copy :: "path \<Rightarrow> path \<Rightarrow> unit io" where
  "copy src dst = (\<lambda>w.
     let w' = called (Copy src dst) w
     in case files w src of
          None \<Rightarrow> (Inl ENOENT, w')
        | Some (FileNode c) \<Rightarrow>
            if list_ex (\<lambda>q. is_file (files w q)) (butlast (prefixes dst)) then (Inl ENOTDIR, w')
            else if src = dst \<or> files w dst = Some DirNode then (Inl ECOPY, w')
            else (Inr (), w'\<lparr>tree := modify (butlast dst) (put_entry (File (last dst) c))
                                         (make_dirs (butlast dst) (tree w))\<rparr>)
        | Some DirNode \<Rightarrow>
            if list_ex (\<lambda>q. is_file (files w q)) (butlast (prefixes dst)) then (Inl ENOTDIR, w')
            else if prefix src dst \<or> is_file (files w dst) then (Inl ECOPY, w')
            else (case (readdir (tree w) src, readdir (make_dirs dst (tree w)) dst) of
                    (Some items, Some ds) \<Rightarrow>
                      (case merge_entries items ds of
                         (merged, ok) \<Rightarrow>
                           (if ok then Inr () else Inl ECOPY,
                            w'\<lparr>tree := modify dst (\<lambda>_. merged) (make_dirs dst (tree w))\<rparr>))
                  | _ \<Rightarrow> (Inl ENOENT, w')))"

definition readFile :: "path \<Rightarrow> string io" where
  "readFile p = (\<lambda>w.
     case files w p of
       Some (FileNode c) \<Rightarrow> (Inr c, w)
     | Some DirNode \<Rightarrow> (Inl EISDIR, w)
     | None \<Rightarrow> (Inl ENOENT, w))"

text \<open>Properties of the calls made so far, and steps that keep them.\<close>

definition is_write :: "call \<Rightarrow> bool" where
  "is_write c = (case c of WriteFile p d \<Rightarrow> True | AppendFile p d \<Rightarrow> True | _ \<Rightarrow> False)"

definition no_write :: "world \<Rightarrow> bool" where
  "no_write w = list_all (\<lambda>c. \<not> is_write c) (trace w)"

definition preserves :: "(world \<Rightarrow> bool) \<Rightarrow> 'a io \<Rightarrow> bool" where
  "preserves P m = (\<forall>w. P w \<longrightarrow> P (snd (m w)))"


subsection \<open>The collaborators\<close>

text \<open>
  What a run receives from outside: the answer to the project directory prompt (\<open>None\<close> is
  the empty answer), \<^verbatim>\<open>JSON.parse\<close> (\<open>None\<close> is a syntax error), the dependencies fetched
  from the repository (\<open>None\<close> when the fetch fails), the package manager chosen, whether the
  install succeeds, the tree that \<^verbatim>\<open>git clone\<close> brings (\<open>None\<close> when the command fails),
  the answer to the route prompt of \<^verbatim>\<open>index.js\<close>, what the user types at each question of
  the environment prompt, the ports from 1 to 65535 on which a server can listen, the port the
  operating system assigns when asked for any port (\<open>None\<close> when it has none), and whether
  the dev server command succeeds.  The license dialogue of the second orchestrator asks
  its questions and prints; its result is not used.
\<close>

record inputs =
  projectDirAnswer :: "path option"
  JSON_parse :: "string \<Rightarrow> package_json option"
  repoDependencies :: "string list option"
  packageManager :: string
  installOk :: bool
  cloneResult :: "entry list option"
  bucketRouteAnswer :: path
  typed :: "string \<Rightarrow> string"
  freePorts :: "nat set"
  ephemeralPort :: "nat option"
  devServerOk :: bool

definition getDependenciesFromRepo :: "inputs \<Rightarrow> string list io" where
  "getDependenciesFromRepo inp =
     (case repoDependencies inp of None \<Rightarrow> throw FetchError | Some deps \<Rightarrow> return deps)"

definition execa :: "bool \<Rightarrow> string \<Rightarrow> string list \<Rightarrow> unit io" where
  "execa ok file arguments = (\<lambda>w.
     (if ok then Inr () else Inl ProcessError, called (Execa file arguments) w))"

text \<open>
  \<^verbatim>\<open>git clone\<close> into \<open>tempDir\<close>: the cloned tree becomes the directory at
  \<open>tempDir\<close>, the missing directories above it being created.  The command refuses a
  destination that exists, unless it is an empty directory, and one that has a file above it.
\<close>

definition place_dir :: "path \<Rightarrow> entry list \<Rightarrow> entry list \<Rightarrow> entry list" where
  "place_dir p items t =
     (if p = [] then items
      else modify (butlast p) (put_entry (Dir (last p) items)) (make_dirs (butlast p) t))"

definition git_clone :: "inputs \<Rightarrow> path \<Rightarrow> unit io" where
  "git_clone inp tempDir = (\<lambda>w.
     let w' = called (GitClone tempDir) w
     in case cloneResult inp of
          None \<Rightarrow> (Inl ProcessError, w')
        | Some template \<Rightarrow>
            if (files w tempDir \<noteq> None \<and> readdir (tree w) tempDir \<noteq> Some []) \<or>
               list_ex (\<lambda>q. is_file (files w q)) (butlast (prefixes tempDir))
            then (Inl ProcessError, w')
            else (Inr (), w'\<lparr>tree := place_dir tempDir template (tree w)\<rparr>))"

definition checkIsNextProject :: "world \<Rightarrow> path \<Rightarrow> bool" where
  "checkIsNextProject w dir =
     list_all (\<lambda>file. existsSync w (path_join dir [file])) [''package.json'', ''next.config.js'']"

definition readPackageJson :: "inputs \<Rightarrow> path \<Rightarrow> package_json io" where
  "readPackageJson inp packageJsonPath =
     bind (readFile packageJsonPath) (\<lambda>fileContent.
       case JSON_parse inp fileContent of
         None \<Rightarrow> throw SyntaxError
       | Some packageJson \<Rightarrow> return packageJson)"

definition getProjectName :: "inputs \<Rightarrow> path option \<Rightarrow> string io" where
  "getProjectName inp projectDir =
     (case projectDir of
        None \<Rightarrow> throw TypeError
      | Some dir \<Rightarrow>
          bind (readPackageJson inp (path_join dir [''package.json''])) (\<lambda>packageJsonData.
            return (case pj_name packageJsonData of None \<Rightarrow> [] | Some n \<Rightarrow> n)))"

text \<open>
  \<^verbatim>\<open>inquirer.prompt(questions)\<close>: one answer per question, in the order of the questions;
  an empty input takes the question's default.
\<close>

definition prompt :: "inputs \<Rightarrow> (string \<times> string) list \<Rightarrow> (string \<times> string) list" where
  "prompt inp questions =
     map (\<lambda>(name, dflt). (name, if typed inp name = [] then dflt else typed inp name)) questions"

definition questions1 :: "string \<Rightarrow> (string \<times> string) list" where
  "questions1 defaultBucketName =
     [(''AWS_ACCESS_KEY_ID'', []), (''AWS_SECRET_ACCESS_KEY'', []), (''AWS_REGION'', []),
      (''AWS_S3_BUCKET_NAME'', defaultBucketName)]"

definition questions2 :: "string \<Rightarrow> (string \<times> string) list" where
  "questions2 defaultBucketName =
     [(''AWS_ACCESS_KEY_ID'', []), (''AWS_SECRET_ACCESS_KEY'', []), (''AWS_REGION'', []),
      (''AWS_S3_BUCKET_NAME'', defaultBucketName), (''OPENAI_API_KEY'', [])]"

definition promptForEnvVariables1 :: "inputs \<Rightarrow> path option \<Rightarrow> (string \<times> string) list io" where
  "promptForEnvVariables1 inp projectDir =
     bind (getProjectName inp projectDir) (\<lambda>projectName.
       return (prompt inp (questions1 (slugify projectName @ ''-bucket-cms''))))"

definition promptForEnvVariables2 :: "inputs \<Rightarrow> path option \<Rightarrow> (string \<times> string) list io" where
  "promptForEnvVariables2 inp projectDir =
     bind (getProjectName inp projectDir) (\<lambda>projectName.
       return (prompt inp (questions2 (slugify projectName @ ''-bucket-cms''))))"

text \<open>
  \<open>getAvailablePort\<close>.  \<^verbatim>\<open>server.listen(startPort)\<close> throws a \<^verbatim>\<open>RangeError\<close> for a
  port above 65535, which rejects the promise; for port 0 the operating system assigns a port
  of its choice, and \<^verbatim>\<open>server.address().port\<close> is that port; for a port from 1 to 65535
  the server listens when the port is free, and \<^verbatim>\<open>server.address().port\<close> is then
  \<open>startPort\<close>.  The error event starts the probe again at the next port.  The ports are
  the natural numbers (the orchestrators ask for 3000).
\<close>

function getAvailablePort :: "nat set \<Rightarrow> nat option \<Rightarrow> nat \<Rightarrow> error + nat" where
  "getAvailablePort free ephemeral startPort =
     (if 65535 < startPort then Inl RangeError
      else if startPort = 0
      then (case ephemeral of Some port \<Rightarrow> Inr port | None \<Rightarrow> getAvailablePort free ephemeral 1)
      else if startPort \<in> free then Inr startPort
      else getAvailablePort free ephemeral (startPort + 1))"
  by pat_completeness auto
termination
  by (relation "measure (\<lambda>(free, ephemeral, startPort). 65536 - startPort)") auto

declare getAvailablePort.simps [simp del]

definition probePort :: "inputs \<Rightarrow> nat \<Rightarrow> nat io" where
  "probePort inp startPort =
     (case getAvailablePort (freePorts inp) (ephemeralPort inp) startPort of
        Inl e \<Rightarrow> throw e
      | Inr port \<Rightarrow> return port)"

definition startDevServer :: "inputs \<Rightarrow> path \<Rightarrow> unit io" where
  "startDevServer inp projectDir =
     bind (remove (path_join projectDir [''.next''])) (\<lambda>_.
       if packageManager inp = ''yarn'' then execa (devServerOk inp) ''yarn'' [''dev'']
       else if packageManager inp = ''pnpm'' then execa (devServerOk inp) ''pnpm'' [''run'', ''dev'']
       else execa (devServerOk inp) ''npm'' [''run'', ''dev''])"

subsection \<open>The orchestrators\<close>

text \<open>
  A run ends with one of the two validation errors, with the error caught by the
  \<^verbatim>\<open>catch\<close> block, or with the dev server started on the probed port.
\<close>

datatype outcome = NotNextProject | AppDirNotFound | Failed error | DevServerStarted nat

text \<open>
  The orchestrator of \<^verbatim>\<open>src/index.js\<close>, with the first \<^verbatim>\<open>util.js\<close>.  It calls
  \<^verbatim>\<open>promptForEnvVariables()\<close> with no argument, so the project directory that
  \<open>getProjectName\<close> receives is \<^verbatim>\<open>undefined\<close> (\<open>None\<close>) and \<^verbatim>\<open>path.join\<close> throws.
  \<^verbatim>\<open>envVariables.length\<close> is the property \<open>length\<close> of the answers object: \<open>length_gt_0\<close>
  compares it with 0 as JavaScript does (\<^verbatim>\<open>undefined > 0\<close> is false, a string is read as
  a number).  The test \<^verbatim>\<open>envVariables.length === 4\<close> only guards a message.
\<close>

definition js_number :: "string \<Rightarrow> nat option" where
  "js_number s =
     (if list_all (\<lambda>c. 48 \<le> (of_char c :: nat) \<and> (of_char c :: nat) \<le> 57) s
      then Some (foldl (\<lambda>n c. 10 * n + (of_char c - 48)) 0 s) else None)"

definition length_gt_0 :: "(string \<times> string) list \<Rightarrow> bool" where
  "length_gt_0 envVariables =
     (case map_of envVariables ''length'' of
        None \<Rightarrow> False
      | Some v \<Rightarrow> (case js_number v of None \<Rightarrow> False | Some n \<Rightarrow> n > 0))"

definition envStep_index :: "inputs \<Rightarrow> path \<Rightarrow> unit io" where
  "envStep_index inp projectDir =
     bind (promptForEnvVariables1 inp None) (\<lambda>envVariables.
       if length_gt_0 envVariables then writeEnvVariables envVariables projectDir
       else return ())"

definition install_index :: "inputs \<Rightarrow> path \<Rightarrow> path \<Rightarrow> unit io" where
  "install_index inp projectDir appDir =
     (let apiDir = path_join appDir [''api'', ''bucket''];
          tempDir = path_join projectDir [''.bucket-cms-temp''];
          bucketRoute = bucketRouteAnswer inp;
          sourceBucketDir = path_join tempDir [''src'', ''app'', ''bucket''];
          targetBucketDir = path_join projectDir bucketRoute;
          sourceApiDir = path_join tempDir [''src'', ''app'', ''api'', ''bucket'']
      in seq [
        (\<lambda>w. if \<not> existsSync w (path_join appDir [''api''])
             then mkdir (path_join appDir [''api'']) w else return () w),
        bind (getDependenciesFromRepo inp) (\<lambda>dependencies.
          execa (installOk inp) (packageManager inp) (''install'' # dependencies)),
        (\<lambda>w. if existsSync w tempDir then remove tempDir w else return () w),
        git_clone inp tempDir,
        ensureDir targetBucketDir,
        copy sourceBucketDir targetBucketDir,
        copy sourceApiDir apiDir,
        remove tempDir,
        envStep_index inp projectDir])"

text \<open>
  The orchestrator kept in \<^verbatim>\<open>src/README.md\<close>, with the second \<^verbatim>\<open>util.js\<close> (five
  questions).  \<open>str_includes\<close> is \<^verbatim>\<open>String.prototype.includes\<close>.
\<close>

fun str_includes :: "string \<Rightarrow> string \<Rightarrow> bool" where
  "str_includes [] sub = (sub = [])"
| "str_includes (c # cs) sub = (prefix sub (c # cs) \<or> str_includes cs sub)"

text \<open>
  The report of the detected auth solution.  Without one the warning is printed with
  \<^verbatim>\<open>chalk.orange\<close>.  \<^verbatim>\<open>chalk\<close> has no style of that name: \<^verbatim>\<open>chalk.orange\<close> is
  \<^verbatim>\<open>undefined\<close>, and calling it throws a \<^verbatim>\<open>TypeError\<close>.
\<close>

definition reportAuth :: "package_json \<Rightarrow> unit io" where
  "reportAuth packageJson =
     (if truthy (hasNextAuth packageJson) then return ()
      else if truthy (hasClerk packageJson) then return ()
      else throw TypeError)"

definition configureAuth :: "package_json \<Rightarrow> path \<Rightarrow> path \<Rightarrow> unit io" where
  "configureAuth packageJson tempDir apiDir =
     (let targetAuthFilePath = path_join apiDir [''auth'', ''get-session-user.ts'']
      in if truthy (hasNextAuth packageJson)
         then copy (path_join tempDir [''src'', ''app'', ''api'', ''bucket'', ''auth'',
                      ''next-auth'', ''get-session-user.ts'']) targetAuthFilePath
         else if truthy (hasClerk packageJson)
         then copy (path_join tempDir [''src'', ''app'', ''api'', ''bucket'', ''auth'',
                      ''clerk'', ''get-session-user.ts'']) targetAuthFilePath
         else copy (path_join tempDir [''src'', ''app'', ''api'', ''bucket'', ''auth'',
                      ''localhost-only'', ''get-session-user.ts'']) targetAuthFilePath)"





definition removeAuthDirectories :: "path \<Rightarrow> unit io" where
  "removeAuthDirectories tempDir =
     (let localhostOnlyDir = path_join tempDir [''src'', ''app'', ''api'', ''bucket'', ''auth'', ''localhost-only''];
          nextAuthDir = path_join tempDir [''src'', ''app'', ''api'', ''bucket'', ''auth'', ''next-auth''];
          clerkDir = path_join tempDir [''src'', ''app'', ''api'', ''bucket'', ''auth'', ''clerk'']
      in seq [remove localhostOnlyDir, remove nextAuthDir, remove clerkDir])"

text \<open>
  The steps inside the \<^verbatim>\<open>try\<close> block after the manifest is parsed, in three parts: the
  steps up to the copy of the API routes, the two steps that configure the auth adapter and
  remove the candidate directories, and the steps that follow them.
\<close>

definition steps_before_auth :: "inputs \<Rightarrow> path \<Rightarrow> path \<Rightarrow> package_json \<Rightarrow> unit io list" where
  "steps_before_auth inp projectDir appDir packageJson =
     (let apiDir = path_join appDir [''api'', ''bucket''];
          tempDir = path_join projectDir [''.bucket-cms-temp''];
          bucketRoute = path_join appDir [''bucket''];
          sourceBucketDir = path_join tempDir [''src'', ''app'', ''bucket''];
          targetBucketDir = path_join projectDir bucketRoute;
          sourceApiDir = path_join tempDir [''src'', ''app'', ''api'', ''bucket'']
      in [
        reportAuth packageJson,
        (\<lambda>w. if \<not> existsSync w (path_join appDir [''api''])
             then mkdir (path_join appDir [''api'']) w else return () w),
        bind (getDependenciesFromRepo inp) (\<lambda>repoDependencies.
          let dependencies =
            filter (\<lambda>dep. str_includes dep ''clerk'') (filter (\<lambda>dep. dep \<noteq> ''next-auth'') repoDependencies)
          in execa (installOk inp) (packageManager inp) (''install'' # dependencies)),
        (\<lambda>w. if existsSync w tempDir then remove tempDir w else return () w),
        git_clone inp tempDir,
        ensureDir targetBucketDir,
        copy sourceBucketDir targetBucketDir,
        copy sourceApiDir apiDir])"

definition steps_after_cleanup :: "inputs \<Rightarrow> path \<Rightarrow> unit io list" where
  "steps_after_cleanup inp projectDir =
     (let tempDir = path_join projectDir [''.bucket-cms-temp''];
          sourceLogoPath = path_join tempDir [''public'', ''bucket-cms-logo.jpg''];
          targetLogoPath = path_join projectDir [''public'', ''bucket-cms-logo.jpg'']
      in [
        copy sourceLogoPath targetLogoPath,
        remove tempDir,
        bind (promptForEnvVariables2 inp (Some projectDir)) (\<lambda>envVariables.
          writeEnvVariables envVariables projectDir)])"

definition install_readme :: "inputs \<Rightarrow> path \<Rightarrow> path \<Rightarrow> unit io" where
  "install_readme inp projectDir appDir =
     bind (readPackageJson inp (path_join projectDir [''package.json''])) (\<lambda>packageJson.
       seq (steps_before_auth inp projectDir appDir packageJson @
            [configureAuth packageJson (path_join projectDir [''.bucket-cms-temp''])
               (path_join appDir [''api'', ''bucket'']),
             removeAuthDirectories (path_join projectDir [''.bucket-cms-temp''])] @
            steps_after_cleanup inp projectDir))"

text \<open>
  The part both orchestrators share: the validation, then the installation steps inside the
  \<^verbatim>\<open>try\<close> block, the port probe and the dev server.
\<close>

definition integrateBucketCMS ::
    "(inputs \<Rightarrow> path \<Rightarrow> path \<Rightarrow> unit io) \<Rightarrow> inputs \<Rightarrow> entry list \<Rightarrow> outcome \<times> world" where
  "integrateBucketCMS install inp root =
     (let w0 = \<lparr>tree = root, trace = []\<rparr>
      in case projectDirAnswer inp of
           None \<Rightarrow> (NotNextProject, w0)
         | Some projectDir \<Rightarrow>
             if \<not> checkIsNextProject w0 projectDir then (NotNextProject, w0)
             else (case readdir root projectDir of
                None \<Rightarrow> (Failed ENOENT, w0)
              | Some items \<Rightarrow>
                 (case getAppDirectoryPath projectDir items of
                    None \<Rightarrow> (AppDirNotFound, w0)
                  | Some appDir \<Rightarrow>
                      if \<not> existsSync w0 appDir then (AppDirNotFound, w0)
                      else (case bind (install inp projectDir appDir) (\<lambda>_.
                                  bind (probePort inp 3000) (\<lambda>port.
                                  bind (startDevServer inp projectDir) (\<lambda>_. return port))) w0 of
                              (Inl e, w) \<Rightarrow> (Failed e, w)
                            | (Inr port, w) \<Rightarrow> (DevServerStarted port, w)))))"

definition integrateBucketCMS_index :: "inputs \<Rightarrow> entry list \<Rightarrow> outcome \<times> world" where
  "integrateBucketCMS_index = integrateBucketCMS install_index"

definition integrateBucketCMS_readme :: "inputs \<Rightarrow> entry list \<Rightarrow> outcome \<times> world" where
  "integrateBucketCMS_readme = integrateBucketCMS install_readme"

subsection \<open>Example inputs\<close>

definition tree_one :: "entry list" where
  "tree_one = [File ''package.json'' [], Dir ''public'' [], Dir ''src'' [Dir ''lib'' [], Dir ''app'' []]]"

definition tree_none :: "entry list" where
  "tree_none = [File ''package.json'' [], File ''app'' [], Dir ''public'' []]"

definition tree_many :: "entry list" where
  "tree_many =
     [File ''package.json'' [], Dir ''public'' [],
      Dir ''src'' [Dir ''lib'' [Dir ''app'' []], Dir ''app'' [Dir ''app'' []]],
      Dir ''zoo'' [Dir ''app'' []]]"

definition tree_no_app :: "entry list" where
  "tree_no_app = [File ''package.json'' [], File ''next.config.js'' [], Dir ''public'' [Dir ''img'' []]]"

text \<open>An empty working directory.\<close>

definition empty_world :: world where
  "empty_world = \<lparr>tree = [], trace = []\<rparr>"

text \<open>A template repository, and a host project without an auth solution.\<close>

definition template0 :: "entry list" where
  "template0 =
     [Dir ''src'' [Dir ''app''
        [Dir ''bucket'' [File ''page.tsx'' ''admin''],
         Dir ''api'' [Dir ''bucket''
           [Dir ''items'' [File ''route.ts'' ''items''],
            Dir ''auth''
              [File ''get-session-user.ts'' ''default'',
               Dir ''next-auth'' [File ''get-session-user.ts'' ''nextauth''],
               Dir ''clerk'' [File ''get-session-user.ts'' ''clerk''],
               Dir ''localhost-only'' [File ''get-session-user.ts'' ''localhost'']]]]]],
      Dir ''public'' [File ''bucket-cms-logo.jpg'' ''logo'']]"

definition no_auth_manifest :: package_json where
  "no_auth_manifest = \<lparr>pj_name = Some ''My Cool App!!'', pj_dependencies = None\<rparr>"

definition inputs0 :: inputs where
  "inputs0 = \<lparr>projectDirAnswer = Some [],
     JSON_parse = (\<lambda>s. if s = ''{name: My Cool App!!}'' then Some no_auth_manifest else None),
     repoDependencies = Some [''next-auth'', ''@clerk/nextjs'', ''react''],
     packageManager = ''pnpm'', installOk = True, cloneResult = Some template0,
     bucketRouteAnswer = [''src'', ''app'', ''bucket''],
     typed = (\<lambda>q. if q = ''AWS_REGION'' then ''us-west-1'' else []),
     freePorts = {3001, 3002}, ephemeralPort = Some 49152, devServerOk = True\<rparr>"

definition root0 :: "entry list" where
  "root0 = [File ''package.json'' ''{name: My Cool App!!}'', File ''next.config.js'' [],
            Dir ''app'' []]"




definition cloned_world :: world where
  "cloned_world = \<lparr>tree = place_dir [''.bucket-cms-temp''] template0 root0, trace = []\<rparr>"



section \<open>Properties\<close>

subsection \<open>slugify is idempotent\<close>

lemma toLowerCase_char_not_upper: "\<not> is_upper (toLowerCase_char c)"
  by (auto simp: toLowerCase_char_def is_upper_def Let_def)

lemma toLowerCase_char_slug: "slug_char c \<Longrightarrow> toLowerCase_char c = c"
  by (auto simp: toLowerCase_char_def slug_char_def is_upper_def is_word_def is_hyphen_def Let_def)

lemma slug_char_not_space: "slug_char c \<Longrightarrow> \<not> is_space c"
  by (auto simp: slug_char_def is_space_def is_word_def is_hyphen_def Let_def)

lemma set_dropWhile_subset: "set (dropWhile P xs) \<subseteq> set xs"
  by (auto dest: set_dropWhileD)

lemma set_replace_runs: "set (replace_runs P r s) \<subseteq> set r \<union> {c \<in> set s. \<not> P c}"
proof (induction P r s rule: replace_runs.induct)
  case (1 P r)
  then show ?case by simp
next
  case (2 P r c cs)
  with set_dropWhile_subset[of P cs] show ?case by (auto split: if_splits)
qed

lemma replace_runs_id: "(\<forall>c \<in> set s. \<not> P c) \<Longrightarrow> replace_runs P r s = s"
  by (induction s) auto

lemma collapse_hyphens_Nil: "collapse_hyphens s = [] \<longleftrightarrow> s = []"
  by (induction s rule: collapse_hyphens.induct) auto

lemma hd_collapse_hyphens: "hd (collapse_hyphens s) = hd s"
  by (induction s rule: collapse_hyphens.induct) (auto simp: is_hyphen_def)

lemma set_collapse_hyphens: "set (collapse_hyphens s) \<subseteq> set s"
proof (induction s rule: collapse_hyphens.induct)
  case (3 c d cs)
  with set_dropWhile_subset[of is_hyphen cs] show ?case
    by (auto simp: is_hyphen_def split: if_splits)
qed simp_all

lemma nodouble_Cons:
  "nodouble (c # s) \<longleftrightarrow> (s = [] \<or> \<not> (is_hyphen c \<and> is_hyphen (hd s))) \<and> nodouble s"
  by (cases s) auto

lemma nodouble_collapse_hyphens: "nodouble (collapse_hyphens s)"
proof (induction s rule: collapse_hyphens.induct)
  case (3 c d cs)
  show ?case
  proof (cases "is_hyphen c \<and> is_hyphen d")
    case True
    have "dropWhile is_hyphen cs = [] \<or> \<not> is_hyphen (hd (dropWhile is_hyphen cs))"
      using hd_dropWhile[of is_hyphen cs] by blast
    with True 3 show ?thesis
      by (simp add: nodouble_Cons collapse_hyphens_Nil hd_collapse_hyphens)
  next
    case False
    with 3 show ?thesis
      by (auto simp add: nodouble_Cons collapse_hyphens_Nil hd_collapse_hyphens)
  qed
qed simp_all

lemma collapse_hyphens_id: "nodouble s \<Longrightarrow> collapse_hyphens s = s"
  by (induction s rule: collapse_hyphens.induct) auto

lemma nodouble_append: "nodouble (a @ b) \<Longrightarrow> nodouble a \<and> nodouble b"
proof (induction a)
  case Nil
  then show ?case by simp
next
  case (Cons x a)
  then show ?case by (cases a; cases b) (auto simp: nodouble_Cons)
qed

lemma nodouble_trim_start: "nodouble s \<Longrightarrow> nodouble (trim_start s)"
  using nodouble_append[of "takeWhile is_hyphen s" "dropWhile is_hyphen s"]
  by (simp add: trim_start_def)

lemma trim_end_prefix: "s = trim_end s @ rev (takeWhile is_hyphen (rev s))"
proof -
  have "trim_end s @ rev (takeWhile is_hyphen (rev s)) =
        rev (takeWhile is_hyphen (rev s) @ dropWhile is_hyphen (rev s))"
    unfolding trim_end_def rev_append ..
  then show ?thesis by simp
qed

lemma nodouble_trim_end: "nodouble s \<Longrightarrow> nodouble (trim_end s)"
  using nodouble_append[of "trim_end s" "rev (takeWhile is_hyphen (rev s))"] trim_end_prefix[of s]
  by simp

lemma set_trim_start: "set (trim_start s) \<subseteq> set s"
  unfolding trim_start_def by (rule set_dropWhile_subset)

lemma set_trim_end: "set (trim_end s) \<subseteq> set s"
  using set_dropWhile_subset[of is_hyphen "rev s"] by (simp add: trim_end_def)

lemma hd_trim_start: "trim_start s \<noteq> [] \<Longrightarrow> \<not> is_hyphen (hd (trim_start s))"
  unfolding trim_start_def by (rule hd_dropWhile)

lemma last_trim_end: "trim_end s \<noteq> [] \<Longrightarrow> \<not> is_hyphen (last (trim_end s))"
  using hd_dropWhile[of is_hyphen "rev s"] by (simp add: trim_end_def last_rev)

lemma hd_trim_end: "trim_end s \<noteq> [] \<Longrightarrow> hd (trim_end s) = hd s"
  using trim_end_prefix[of s] by (metis hd_append2)

lemma trim_start_id: "s = [] \<or> \<not> is_hyphen (hd s) \<Longrightarrow> trim_start s = s"
  by (simp add: trim_start_def dropWhile_eq_self_iff)

lemma trim_end_id: "s = [] \<or> \<not> is_hyphen (last s) \<Longrightarrow> trim_end s = s"
  by (cases "s = []") (auto simp add: trim_end_def dropWhile_eq_self_iff hd_rev rev_swap)

lemma slug_normal_slugify: "slug_normal (slugify s)"
proof -
  define a where "a = replace_runs is_space ''-'' (toLowerCase s)"
  define b where "b = replace_runs (\<lambda>c. \<not> (is_word c \<or> is_hyphen c)) [] a"
  define c where "c = collapse_hyphens b"
  define d where "d = trim_start c"
  have s: "slugify s = trim_end d" by (simp add: slugify_def a_def b_def c_def d_def)
  have "\<forall>x \<in> set (toLowerCase s). \<not> is_upper x"
    by (simp add: toLowerCase_def toLowerCase_char_not_upper)
  moreover have "\<not> is_upper CHR ''-''" by (simp add: is_upper_def)
  ultimately have a: "\<forall>x \<in> set a. \<not> is_upper x"
    using set_replace_runs[of is_space "''-''" "toLowerCase s"] by (auto simp: a_def)
  have b: "\<forall>x \<in> set b. slug_char x"
    using set_replace_runs[of "\<lambda>c. \<not> (is_word c \<or> is_hyphen c)" "[]" a] a
    by (auto simp: b_def slug_char_def)
  have c: "\<forall>x \<in> set c. slug_char x" "nodouble c"
    using b set_collapse_hyphens[of b] by (auto simp: c_def nodouble_collapse_hyphens)
  have d: "\<forall>x \<in> set d. slug_char x" "nodouble d" "d = [] \<or> \<not> is_hyphen (hd d)"
    using c set_trim_start[of c] hd_trim_start[of c] by (auto simp: d_def nodouble_trim_start)
  have "\<forall>x \<in> set (trim_end d). slug_char x" using d(1) set_trim_end[of d] by auto
  moreover have "nodouble (trim_end d)" using d(2) by (rule nodouble_trim_end)
  moreover have "trim_end d = [] \<or>
      (\<not> is_hyphen (hd (trim_end d)) \<and> \<not> is_hyphen (last (trim_end d)))"
    using d(3) hd_trim_end[of d] last_trim_end[of d]
    by (cases "trim_end d = []") (auto simp: trim_end_def)
  ultimately show ?thesis by (simp add: s slug_normal_def)
qed

lemma slugify_slug_normal: "slug_normal s \<Longrightarrow> slugify s = s"
proof -
  assume n: "slug_normal s"
  then have 1: "toLowerCase s = s"
    by (simp add: slug_normal_def toLowerCase_def toLowerCase_char_slug map_idI)
  have 2: "replace_runs is_space ''-'' s = s"
    using n by (intro replace_runs_id) (auto simp: slug_normal_def slug_char_not_space)
  have 3: "replace_runs (\<lambda>c. \<not> (is_word c \<or> is_hyphen c)) [] s = s"
    using n by (intro replace_runs_id) (auto simp: slug_normal_def slug_char_def)
  have 4: "collapse_hyphens s = s" using n by (simp add: slug_normal_def collapse_hyphens_id)
  have 5: "trim_start s = s" using n by (auto simp: slug_normal_def intro: trim_start_id)
  have 6: "trim_end s = s" using n by (auto simp: slug_normal_def intro: trim_end_id)
  show ?thesis by (simp only: slugify_def 1 2 3 4 5 6)
qed

text \<open>
  C9. \<open>slugify\<close> is idempotent: applying it twice gives what applying it once gives, for
  every string; and it maps \<^verbatim>\<open>"My Cool App!!"\<close> to \<^verbatim>\<open>"my-cool-app"\<close> and
  \<^verbatim>\<open>"  --Foo--  "\<close> to \<^verbatim>\<open>"foo"\<close>.
\<close>

theorem slugify_idempotent:
  "slugify (slugify s) = slugify s \<and>
   slugify ''My Cool App!!'' = ''my-cool-app'' \<and> slugify ''  --Foo--  '' = ''foo''"
proof -
  have "slugify (slugify s) = slugify s"
    by (rule slugify_slug_normal[OF slug_normal_slugify])
  moreover have "slugify ''My Cool App!!'' = ''my-cool-app''" by code_simp
  moreover have "slugify ''  --Foo--  '' = ''foo''" by code_simp
  ultimately show ?thesis by simp
qed

theorem slugify_idempotent_witness:
  "slugify (slugify ''Hello,  World --'') = slugify ''Hello,  World --''"
  using slugify_idempotent [of "''Hello,  World --''"] by simp

subsection \<open>Auth-profile selection\<close>

lemma selectAuthProfile_cases:
  "selectAuthProfile packageJson =
     (if truthy (hasNextAuth packageJson) then NextAuth
      else if truthy (hasClerk packageJson) then Clerk else LocalhostBypass)"
  by (simp add: selectAuthProfile_def)

lemma selectAuthProfile_nonempty_versions:
  assumes "pj_dependencies packageJson = Some deps" "\<forall>v \<in> ran deps. v \<noteq> []"
  shows "selectAuthProfile packageJson =
     (if ''next-auth'' \<in> dom deps then NextAuth
      else if ''@clerk/nextjs'' \<in> dom deps then Clerk else LocalhostBypass)"
  using assms
  by (auto simp: selectAuthProfile_def hasNextAuth_def hasClerk_def truthy_def ran_def dom_def
      split: option.splits)

text \<open>
  C1. The selection is a total function into the three profiles, but it does not test
  membership: it tests the declared version for truthiness.  A manifest that declares
  \<^verbatim>\<open>"next-auth": ""\<close> (npm reads the empty range as any version) has \<^verbatim>\<open>next-auth\<close>
  among its dependencies and is taken for a project without an auth solution.
\<close>

theorem selectAuthProfile_empty_version:
  "declared \<lparr>pj_name = Some ''host'', pj_dependencies = Some [''next-auth'' \<mapsto> []]\<rparr> ''next-auth'' \<and>
   selectAuthProfile \<lparr>pj_name = Some ''host'', pj_dependencies = Some [''next-auth'' \<mapsto> []]\<rparr>
     = LocalhostBypass"
  by (simp add: declared_def selectAuthProfile_def hasNextAuth_def hasClerk_def truthy_def)

subsection \<open>getAppDirectoryPath\<close>

lemma scan_items_subdirs:
  "scan_items dir items st =
     (case find (\<lambda>(p, n, es). n = ''app'') (subdirs dir items) of
        Some (p, n, es) \<Rightarrow> Inl p
      | None \<Rightarrow> Inr (rev (map (\<lambda>(p, n, es). (p, es)) (subdirs dir items)) @ st))"
  by (induction dir items st rule: scan_items.induct) (auto split: option.splits)

lemma find_append:
  "find P (xs @ ys) = (case find P xs of None \<Rightarrow> find P ys | Some x \<Rightarrow> Some x)"
  by (induction xs) auto

lemma find_map_subdirs:
  "find (\<lambda>(p, n). n = ''app'') (map (\<lambda>(p, n, es). (p, n)) xs) =
   map_option (\<lambda>(p, n, es). (p, n)) (find (\<lambda>(p, n, es). n = ''app'') xs)"
  by (induction xs) auto

lemma while_dirsToCheck_lifo:
  "while_dirsToCheck st = map_option fst (find (\<lambda>(p, n). n = ''app'') (lifo_discovery st))"
proof (induction st rule: lifo_discovery.induct)
  case 1
  then show ?case by simp
next
  case (2 dir items rest)
  show ?case
  proof (cases "find (\<lambda>(p, n, es). n = ''app'') (subdirs dir items)")
    case None
    with 2 show ?thesis
      by (simp add: scan_items_subdirs find_append find_map_subdirs)
  next
    case (Some a)
    then show ?thesis
      by (cases a) (simp add: scan_items_subdirs find_append find_map_subdirs)
  qed
qed

lemma set_all_dirs_subdirs:
  "set (all_dirs dir items) =
     (\<Union>(p, n, es) \<in> set (subdirs dir items). insert (p, n) (set (all_dirs p es)))"
  by (induction dir items rule: subdirs.induct) (auto simp: all_dirs_def)

lemma Union_triples:
  "(\<Union>(p, n, es) \<in> set xs. insert (p, n) (A p es)) =
     set (map (\<lambda>(p, n, es). (p, n)) xs) \<union> (\<Union>(p, es) \<in> set (map (\<lambda>(p, n, es). (p, es)) xs). A p es)"
  by (induction xs) auto

lemma set_lifo_discovery:
  "set (lifo_discovery st) = (\<Union>(p, es) \<in> set st. set (all_dirs p es))"
proof (induction st rule: lifo_discovery.induct)
  case 1
  then show ?case by simp
next
  case (2 dir items rest)
  let ?subs = "subdirs dir items"
  have "set (lifo_discovery ((dir, items) # rest)) =
        set (map (\<lambda>(p, n, es). (p, n)) ?subs) \<union>
        ((\<Union>(p, es) \<in> set (map (\<lambda>(p, n, es). (p, es)) ?subs). set (all_dirs p es)) \<union>
         (\<Union>(p, es) \<in> set rest. set (all_dirs p es)))"
    unfolding lifo_discovery.simps set_append 2 by simp
  also have "\<dots> = set (all_dirs dir items) \<union> (\<Union>(p, es) \<in> set rest. set (all_dirs p es))"
    unfolding set_all_dirs_subdirs[of dir items] Union_triples by (simp only: Un_assoc)
  finally show ?case by simp
qed

lemma find_Some_set: "find P xs = Some x \<Longrightarrow> x \<in> set xs \<and> P x"
  by (induction xs) (auto split: if_splits)

text \<open>
  C2. For a finite directory tree below the start path (\<open>items\<close> is the listing of the
  start directory): if exactly one directory in it is named \<^verbatim>\<open>app\<close>,
  \<open>getAppDirectoryPath\<close> returns that directory's path; if none is, it returns the
  not-found signal; if there are several, it returns one of them.  In every case the result
  is the first directory named \<^verbatim>\<open>app\<close> in the order of discovery of the LIFO work
  list: the subdirectories of the popped directory in listing order, then those of the
  subdirectory pushed last.
\<close>

theorem getAppDirectoryPath_correct:
  "(candidates startDir items = [p] \<longrightarrow> getAppDirectoryPath startDir items = Some p) \<and>
   (candidates startDir items = [] \<longrightarrow> getAppDirectoryPath startDir items = None) \<and>
   (candidates startDir items \<noteq> [] \<longrightarrow>
      (\<exists>q \<in> set (candidates startDir items). getAppDirectoryPath startDir items = Some q)) \<and>
   getAppDirectoryPath startDir items = first_discovered startDir items"
proof -
  let ?isapp = "\<lambda>(p :: path, n). n = ''app''"
  define L where "L = lifo_discovery [(startDir, items)]"
  let ?found = "find ?isapp L"
  have eq: "getAppDirectoryPath startDir items = map_option fst ?found"
    unfolding L_def getAppDirectoryPath_def while_dirsToCheck_lifo ..
  have fd: "first_discovered startDir items = map_option fst ?found"
    unfolding L_def first_discovered_def ..
  have sets: "set L = set (all_dirs startDir items)"
    unfolding L_def set_lifo_discovery by simp
  have cand: "set (candidates startDir items) =
      fst ` {x \<in> set L. ?isapp x}"
    by (simp add: candidates_def sets)
  have none: "candidates startDir items = [] \<Longrightarrow> ?found = None"
  proof -
    assume "candidates startDir items = []"
    then have "set (candidates startDir items) = {}" by simp
    then have "\<forall>x \<in> set L. \<not> ?isapp x"
      unfolding cand by blast
    then show ?thesis by (auto simp: find_None_iff)
  qed
  have some: "candidates startDir items \<noteq> [] \<Longrightarrow>
      \<exists>x. ?found = Some x \<and> fst x \<in> set (candidates startDir items)"
  proof -
    assume "candidates startDir items \<noteq> []"
    then have "set (candidates startDir items) \<noteq> {}" by simp
    then obtain y where y: "y \<in> set L" "?isapp y"
      unfolding cand by blast
    then have "?found \<noteq> None" by (auto simp: find_None_iff)
    then obtain x where x: "?found = Some x" by blast
    then have "x \<in> set L \<and> ?isapp x"
      by (rule find_Some_set)
    then have "fst x \<in> set (candidates startDir items)" unfolding cand by blast
    with x show ?thesis by blast
  qed
  have one: "candidates startDir items = [p] \<Longrightarrow> getAppDirectoryPath startDir items = Some p"
  proof -
    assume c: "candidates startDir items = [p]"
    then have "candidates startDir items \<noteq> []" by simp
    from some[OF this] c show ?thesis by (auto simp: eq)
  qed
  show ?thesis
    using none some one by (auto simp: eq fd)
qed

theorem getAppDirectoryPath_correct_witness:
  "candidates [] tree_one = [[''src'', ''app'']] \<and>
   getAppDirectoryPath [] tree_one = Some [''src'', ''app''] \<and>
   candidates [] tree_none = [] \<and>
   getAppDirectoryPath [] tree_none = None \<and>
   candidates [] tree_many =
     [[''src'', ''lib'', ''app''], [''src'', ''app''], [''src'', ''app'', ''app''], [''zoo'', ''app'']] \<and>
   getAppDirectoryPath [] tree_many = Some [''zoo'', ''app'']"
proof -
  have c1: "candidates [] tree_one = [[''src'', ''app'']]"
    by (simp add: candidates_def all_dirs_def path_join_def tree_one_def)
  have c0: "candidates [] tree_none = []"
    by (simp add: candidates_def all_dirs_def path_join_def tree_none_def)
  have c2: "candidates [] tree_many =
     [[''src'', ''lib'', ''app''], [''src'', ''app''], [''src'', ''app'', ''app''], [''zoo'', ''app'']]"
    by (simp add: candidates_def all_dirs_def path_join_def tree_many_def)
  have f2: "first_discovered [] tree_many = Some [''zoo'', ''app'']"
    by (simp add: first_discovered_def path_join_def tree_many_def)
  from getAppDirectoryPath_correct[of "[]" tree_one "[''src'', ''app'']"] c1
  have 1: "getAppDirectoryPath [] tree_one = Some [''src'', ''app'']" by blast
  from getAppDirectoryPath_correct[of "[]" tree_none] c0
  have 0: "getAppDirectoryPath [] tree_none = None" by blast
  from getAppDirectoryPath_correct[of "[]" tree_many] f2
  have 2: "getAppDirectoryPath [] tree_many = Some [''zoo'', ''app'']" by simp
  from c1 1 c0 0 c2 2 show ?thesis by blast
qed

subsection \<open>Changes of the tree\<close>

lemma find_name: "find (\<lambda>e. entry_name e = n) es = Some e \<Longrightarrow> entry_name e = n"
  by (induction es) (auto split: if_splits)

lemma find_put_entry:
  "find (\<lambda>x. entry_name x = n) (put_entry e es) =
     (if entry_name e = n then Some e else find (\<lambda>x. entry_name x = n) es)"
  by (induction es) auto



lemma files_root: "files w [] = Some DirNode"
  by (simp add: files_def)

lemma readdir_iff: "(\<exists>sub. readdir es p = Some sub) \<longleftrightarrow> fs_of_tree es p = Some DirNode"
  by (induction es p rule: readdir.induct) (auto split: option.splits entry.splits)

lemma readdir_append:
  "readdir es d = Some sub \<Longrightarrow> fs_of_tree es (d @ r) = fs_of_tree sub r"
  by (induction es d rule: readdir.induct) (auto split: option.splits entry.splits)



lemma fs_of_tree_modify:
  "readdir es d = Some sub \<Longrightarrow>
   fs_of_tree (modify d f es) q =
     (if prefix d q then fs_of_tree (f sub) (drop (length d) q) else fs_of_tree es q)"
proof (induction d arbitrary: es q)
  case Nil
  then show ?case by simp
next
  case (Cons n p)
  from Cons(2) obtain m sub0 where f: "find (\<lambda>e. entry_name e = n) es = Some (Dir m sub0)"
    and r: "readdir sub0 p = Some sub"
    by (auto split: option.splits entry.splits)
  from f have m: "m = n" by (auto dest: find_name)
  show ?case
  proof (cases q)
    case Nil
    then show ?thesis by simp
  next
    case (Cons k r')
    with f m Cons.IH[OF r] show ?thesis by (auto simp: find_put_entry)
  qed
qed

lemma fs_put_file:
  "fs_of_tree es [n] \<noteq> Some DirNode \<Longrightarrow>
   fs_of_tree (put_entry (File n c) es) q = (if q = [n] then Some (FileNode c) else fs_of_tree es q)"
  by (cases q) (auto simp: find_put_entry split: option.splits entry.splits)


lemma files_write:
  assumes "fs_of_tree t (butlast p) = Some DirNode" "fs_of_tree t p \<noteq> Some DirNode"
  shows "fs_of_tree (modify (butlast p) (put_entry (File (last p) c)) t) = (fs_of_tree t)(p \<mapsto> FileNode c)"
proof
  fix q
  from assms(2) have p: "p \<noteq> []" by auto
  then have pp: "p = butlast p @ [last p]" by simp
  from assms(1) obtain sub where sub: "readdir t (butlast p) = Some sub"
    using readdir_iff by blast
  have nd: "fs_of_tree sub [last p] \<noteq> Some DirNode"
    using readdir_append[OF sub, of "[last p]"] assms(2) p by simp
  show "fs_of_tree (modify (butlast p) (put_entry (File (last p) c)) t) q = ((fs_of_tree t)(p \<mapsto> FileNode c)) q"
  proof (cases "prefix (butlast p) q")
    case True
    then obtain r where q: "q = butlast p @ r" by (auto simp: prefix_def)
    have "q = p \<longleftrightarrow> r = [last p]" using q pp by (metis same_append_eq)
    with q sub nd show ?thesis
      by (simp add: fs_of_tree_modify fs_put_file readdir_append)
  next
    case False
    then have "q \<noteq> p" using pp by (metis prefixI)
    with False sub show ?thesis by (simp add: fs_of_tree_modify)
  qed
qed




lemma writeFile_ok:
  assumes "files w (butlast p) = Some DirNode" "files w p \<noteq> Some DirNode"
  shows "\<exists>w'. writeFile p data w = (Inr (), w') \<and> trace w' = trace w @ [WriteFile p data] \<and>
           files w' = (files w)(p \<mapsto> FileNode data)"
  using assms files_write[of "tree w" p data]
  by (auto simp: writeFile_def called_def files_def Let_def split: option.splits node.splits)

lemma appendFile_ok:
  assumes "files w (butlast p) = Some DirNode" "files w p = Some (FileNode old)"
  shows "\<exists>w'. appendFile p data w = (Inr (), w') \<and> trace w' = trace w @ [AppendFile p data] \<and>
           files w' = (files w)(p \<mapsto> FileNode (old @ data))"
  using assms files_write[of "tree w" p "old @ data"]
  by (auto simp: appendFile_def called_def files_def Let_def split: option.splits node.splits)

lemma writeFile_Inr:
  "writeFile p data w = (Inr (), w') \<Longrightarrow> files w (butlast p) = Some DirNode \<and> files w p \<noteq> Some DirNode"
  by (auto simp: writeFile_def Let_def split: option.splits node.splits)

lemma appendFile_Inr:
  "appendFile p data w = (Inr (), w') \<Longrightarrow> files w (butlast p) = Some DirNode \<and> files w p \<noteq> Some DirNode"
  by (auto simp: appendFile_def Let_def split: option.splits node.splits)


subsection \<open>writeEnvVariables\<close>

lemma split_lines_nonempty: "split_lines s \<noteq> []"
  by (induction s) (auto split: list.splits)

lemma split_lines_newline_free: "newline_free s \<Longrightarrow> split_lines s = [s]"
  by (induction s) (auto simp: newline_free_def)

lemma split_lines_append:
  "split_lines (a @ newline @ b) = split_lines a @ split_lines b"
  by (induction a) (auto simp: newline_def split_lines_nonempty split: list.splits)

lemma line_count_append:
  "line_count (a @ newline @ b) = line_count a + line_count b"
  by (simp add: line_count_def split_lines_append)

lemma split_lines_join:
  "ls \<noteq> [] \<Longrightarrow> \<forall>l \<in> set ls. newline_free l \<Longrightarrow> split_lines (join newline ls) = ls"
proof (induction newline ls rule: join.induct)
  case 1
  then show ?case by simp
next
  case (2 x)
  then show ?case by (simp add: split_lines_newline_free)
next
  case (3 x y ys)
  then show ?case by (simp add: split_lines_append split_lines_newline_free)
qed

lemma newline_free_entry_line:
  "newline_free k \<Longrightarrow> newline_free v \<Longrightarrow> newline_free (entry_line (k, v))"
  by (simp add: newline_free_def entry_line_def)

lemma split_lines_envData:
  assumes "e \<noteq> []" "\<forall>(k, v) \<in> set e. newline_free k \<and> newline_free v"
  shows "split_lines (envData e) = map entry_line e"
proof -
  have "\<forall>l \<in> set (map entry_line e). newline_free l"
    using assms(2) by (auto simp: newline_free_entry_line)
  with assms(1) show ?thesis unfolding envData_def by (intro split_lines_join) auto
qed

lemma butlast_env: "butlast (path_join dir [n]) = dir"
  by (simp add: path_join_def)

lemma writeEnvVariables_create:
  assumes "files w dir = Some DirNode" "files w (path_join dir [''.env.local'']) = None"
  shows "\<exists>w'. writeEnvVariables e dir w = (Inr (), w') \<and>
           trace w' = trace w @ [WriteFile (path_join dir [''.env.local'']) (envData e)] \<and>
           files w' = (files w)(path_join dir [''.env.local''] \<mapsto> FileNode (envData e))"
  using assms writeFile_ok[of w "path_join dir [''.env.local'']" "envData e"]
  by (simp add: writeEnvVariables_def existsSync_def butlast_env)

lemma writeEnvVariables_append:
  assumes "files w dir = Some DirNode" "files w (path_join dir [''.env.local'']) = Some (FileNode old)"
  shows "\<exists>w'. writeEnvVariables e dir w = (Inr (), w') \<and>
           trace w' = trace w @ [AppendFile (path_join dir [''.env.local'']) (newline @ envData e)] \<and>
           files w' = (files w)(path_join dir [''.env.local''] \<mapsto> FileNode (old @ newline @ envData e))"
  using assms appendFile_ok[of w "path_join dir [''.env.local'']" old "newline @ envData e"]
  by (simp add: writeEnvVariables_def existsSync_def butlast_env)

text \<open>
  C3 (amended). Let the project directory exist.  The block written for a non-empty list of
  entries with newline-free keys and values has one \<^verbatim>\<open>KEY=value\<close> line per entry, in
  input order.  When no configuration file exists at the target (\<^verbatim>\<open>existsSync\<close> is
  false there), \<open>writeEnvVariables\<close> creates the file with exactly the block; when the
  file exists, the new content is the old content, a newline and the block; no other path
  changes.  After a first write of \<open>n \<ge> 1\<close> entries to a fresh target and a second
  write of \<open>m \<ge> 1\<close> entries, the file has \<open>n + m\<close> lines.
\<close>

theorem writeEnvVariables_lines:
  assumes "files w dir = Some DirNode"
  shows "(e \<noteq> [] \<and> (\<forall>(k, v) \<in> set e. newline_free k \<and> newline_free v) \<longrightarrow>
      split_lines (envData e) = map entry_line e) \<and>
   (files w (path_join dir [''.env.local'']) = None \<longrightarrow>
      (\<exists>w'. writeEnvVariables e dir w = (Inr (), w') \<and>
         content_at w' (path_join dir [''.env.local'']) = Some (envData e) \<and>
         (\<forall>q. q \<noteq> path_join dir [''.env.local''] \<longrightarrow> files w' q = files w q))) \<and>
   (files w (path_join dir [''.env.local'']) = Some (FileNode old) \<longrightarrow>
      (\<exists>w'. writeEnvVariables e dir w = (Inr (), w') \<and>
         content_at w' (path_join dir [''.env.local'']) = Some (old @ newline @ envData e) \<and>
         (\<forall>q. q \<noteq> path_join dir [''.env.local''] \<longrightarrow> files w' q = files w q))) \<and>
   (files w (path_join dir [''.env.local'']) = None \<and>
    e1 \<noteq> [] \<and> (\<forall>(k, v) \<in> set e1. newline_free k \<and> newline_free v) \<and>
    e2 \<noteq> [] \<and> (\<forall>(k, v) \<in> set e2. newline_free k \<and> newline_free v) \<longrightarrow>
      (\<exists>w1 w2 c. writeEnvVariables e1 dir w = (Inr (), w1) \<and>
         writeEnvVariables e2 dir w1 = (Inr (), w2) \<and>
         content_at w2 (path_join dir [''.env.local'']) = Some c \<and>
         line_count c = length e1 + length e2))"
proof (intro conjI impI)
  assume "e \<noteq> [] \<and> (\<forall>(k, v) \<in> set e. newline_free k \<and> newline_free v)"
  then show "split_lines (envData e) = map entry_line e"
    by (simp add: split_lines_envData)
next
  assume "files w (path_join dir [''.env.local'']) = None"
  from writeEnvVariables_create[OF assms this, of e]
  show "\<exists>w'. writeEnvVariables e dir w = (Inr (), w') \<and>
         content_at w' (path_join dir [''.env.local'']) = Some (envData e) \<and>
         (\<forall>q. q \<noteq> path_join dir [''.env.local''] \<longrightarrow> files w' q = files w q)"
    by (auto simp: content_at_def)
next
  assume "files w (path_join dir [''.env.local'']) = Some (FileNode old)"
  from writeEnvVariables_append[OF assms this, of e]
  show "\<exists>w'. writeEnvVariables e dir w = (Inr (), w') \<and>
         content_at w' (path_join dir [''.env.local'']) = Some (old @ newline @ envData e) \<and>
         (\<forall>q. q \<noteq> path_join dir [''.env.local''] \<longrightarrow> files w' q = files w q)"
    by (auto simp: content_at_def)
next
  let ?p = "path_join dir [''.env.local'']"
  assume a: "files w ?p = None \<and>
    e1 \<noteq> [] \<and> (\<forall>(k, v) \<in> set e1. newline_free k \<and> newline_free v) \<and>
    e2 \<noteq> [] \<and> (\<forall>(k, v) \<in> set e2. newline_free k \<and> newline_free v)"
  from a have fresh: "files w ?p = None" by simp
  from writeEnvVariables_create[OF assms fresh, of e1] obtain w1 where
    1: "writeEnvVariables e1 dir w = (Inr (), w1)"
    and f1: "files w1 = (files w)(?p \<mapsto> FileNode (envData e1))" by blast
  have "dir \<noteq> ?p" by (simp add: path_join_def)
  with f1 assms have d1: "files w1 dir = Some DirNode" by simp
  from f1 have "files w1 ?p = Some (FileNode (envData e1))" by simp
  from writeEnvVariables_append[OF d1 this, of e2] obtain w2 where
    2: "writeEnvVariables e2 dir w1 = (Inr (), w2)"
    and f2: "files w2 = (files w1)(?p \<mapsto> FileNode (envData e1 @ newline @ envData e2))" by blast
  from f2 have 3: "content_at w2 ?p = Some (envData e1 @ newline @ envData e2)"
    by (simp add: content_at_def)
  have "line_count (envData e1 @ newline @ envData e2) =
        line_count (envData e1) + line_count (envData e2)"
    by (rule line_count_append)
  also have "\<dots> = length e1 + length e2"
    using a by (simp add: line_count_def split_lines_envData)
  finally have "line_count (envData e1 @ newline @ envData e2) = length e1 + length e2" .
  with 1 2 3 show "\<exists>w1 w2 c. writeEnvVariables e1 dir w = (Inr (), w1) \<and>
         writeEnvVariables e2 dir w1 = (Inr (), w2) \<and>
         content_at w2 ?p = Some c \<and> line_count c = length e1 + length e2"
    by blast
qed

theorem writeEnvVariables_lines_witness:
  "split_lines (envData [(''A'', ''1''), (''B'', ''x=y'')]) = [''A=1'', ''B=x=y''] \<and>
   (\<exists>w1 w2 c. writeEnvVariables [(''A'', ''1''), (''B'', ''x=y'')] [] empty_world = (Inr (), w1) \<and>
      content_at w1 [''.env.local''] = Some (envData [(''A'', ''1''), (''B'', ''x=y'')]) \<and>
      writeEnvVariables [(''C'', [])] [] w1 = (Inr (), w2) \<and>
      content_at w2 [''.env.local''] = Some c \<and> line_count c = 3)"
proof -
  let ?e1 = "[(''A'', ''1''), (''B'', ''x=y'')]"
  let ?e2 = "[(''C'', [])] :: (string \<times> string) list"
  have d: "files empty_world [] = Some DirNode" by (simp add: files_def)
  note inst = writeEnvVariables_lines[OF d, of ?e1 _ ?e1 ?e2]
  have nf: "(\<forall>(k, v) \<in> set ?e1. newline_free k \<and> newline_free v)"
           "(\<forall>(k, v) \<in> set ?e2. newline_free k \<and> newline_free v)"
    by (simp_all add: newline_free_def)
  have fresh: "files empty_world (path_join [] [''.env.local'']) = None"
    by (simp add: empty_world_def files_def path_join_def)
  from inst nf have "split_lines (envData ?e1) = map entry_line ?e1" by blast
  then have a: "split_lines (envData ?e1) = [''A=1'', ''B=x=y'']"
    by (simp add: entry_line_def)
  from inst nf fresh obtain w1 w2 c where
    w: "writeEnvVariables ?e1 [] empty_world = (Inr (), w1)"
       "writeEnvVariables ?e2 [] w1 = (Inr (), w2)"
       "content_at w2 (path_join [] [''.env.local'']) = Some c"
       "line_count c = length ?e1 + length ?e2"
    by blast
  from inst fresh w(1) have "content_at w1 (path_join [] [''.env.local'']) = Some (envData ?e1)"
    by auto
  with a w show ?thesis by (auto simp: path_join_def)
qed

lemmas write_defs = writeEnvVariables_def existsSync_def writeFile_def appendFile_def called_def
  files_def empty_world_def path_join_def content_at_def envData_def entry_line_def newline_def
  Let_def

text \<open>
  The claim as it was stated, for every list of entries and every target, fails when a write
  has no entry: after a first write of no entry and a second write of one entry the file is
  an empty line followed by the entry's line, two lines and not \<open>0 + 1\<close>; after a first
  write of one entry and a second write of no entry it is the entry's line followed by an
  empty line, two lines and not \<open>1 + 0\<close>.  It fails too when the project directory does
  not exist: the write is rejected with \<^verbatim>\<open>ENOENT\<close> and no file is created.
\<close>

theorem writeEnvVariables_lines_counterexample:
  "map_option line_count
     (content_at (snd (writeEnvVariables [(''A'', ''1'')] []
        (snd (writeEnvVariables [] [] empty_world)))) [''.env.local''])
   \<noteq> Some (length ([] :: (string \<times> string) list) + length [(''A'', ''1'')]) \<and>
   map_option line_count
     (content_at (snd (writeEnvVariables [] []
        (snd (writeEnvVariables [(''A'', ''1'')] [] empty_world)))) [''.env.local''])
   \<noteq> Some (length [(''A'', ''1'')] + length ([] :: (string \<times> string) list)) \<and>
   fst (writeEnvVariables [(''A'', ''1'')] [''nodir''] empty_world) = Inl ENOENT \<and>
   content_at (snd (writeEnvVariables [(''A'', ''1'')] [''nodir''] empty_world))
     [''nodir'', ''.env.local''] = None"
  by (simp add: write_defs line_count_def)

text \<open>
  C4 (amended). \<open>writeEnvVariables\<close> is append-only and not idempotent.  Whenever a first
  write succeeds, a second write of the same entries to the same target succeeds too, keeps
  the content left by the first as a prefix and appends a newline and the block again; the
  content after two writes is never the content after one.
\<close>

theorem writeEnvVariables_appends_again:
  assumes "writeEnvVariables e dir w = (Inr (), w1)"
  shows "\<exists>c1 w2. content_at w1 (path_join dir [''.env.local'']) = Some c1 \<and>
           writeEnvVariables e dir w1 = (Inr (), w2) \<and>
           content_at w2 (path_join dir [''.env.local'']) = Some (c1 @ newline @ envData e) \<and>
           content_at w2 (path_join dir [''.env.local'']) \<noteq>
             content_at w1 (path_join dir [''.env.local''])"
proof -
  let ?p = "path_join dir [''.env.local'']"
  have d: "files w dir = Some DirNode" and nd: "files w ?p \<noteq> Some DirNode"
    using assms writeFile_Inr[of ?p _ w w1] appendFile_Inr[of ?p _ w w1]
    by (auto simp: writeEnvVariables_def butlast_env Let_def split: if_splits)
  have "\<exists>c1. files w1 = (files w)(?p \<mapsto> FileNode c1)"
  proof (cases "files w ?p")
    case None
    from writeEnvVariables_create[OF d None, of e] assms show ?thesis by auto
  next
    case (Some n)
    with nd obtain old where "files w ?p = Some (FileNode old)" by (cases n) auto
    from writeEnvVariables_append[OF d this, of e] assms show ?thesis by auto
  qed
  then obtain c1 where f1: "files w1 = (files w)(?p \<mapsto> FileNode c1)" by blast
  have "dir \<noteq> ?p" by (simp add: path_join_def)
  with f1 d have d1: "files w1 dir = Some DirNode" by simp
  from f1 have c1: "files w1 ?p = Some (FileNode c1)" by simp
  have "c1 @ newline @ envData e \<noteq> c1" by (simp add: newline_def)
  with writeEnvVariables_append[OF d1 c1, of e] c1 show ?thesis
    by (auto simp: content_at_def)
qed

theorem writeEnvVariables_appends_again_witness:
  "\<exists>w1 w2. writeEnvVariables [(''A'', ''1'')] [] empty_world = (Inr (), w1) \<and>
      content_at w1 [''.env.local''] = Some ''A=1'' \<and>
      writeEnvVariables [(''A'', ''1'')] [] w1 = (Inr (), w2) \<and>
      content_at w2 [''.env.local''] = Some (''A=1'' @ newline @ ''A=1'')"
proof -
  let ?e = "[(''A'', ''1'')]"
  obtain w1 where w1: "writeEnvVariables ?e [] empty_world = (Inr (), w1)"
    by (simp add: write_defs)
  then have c: "content_at w1 [''.env.local''] = Some ''A=1''"
    by (auto simp: write_defs)
  from writeEnvVariables_appends_again[OF w1] c w1 show ?thesis
    by (auto simp: path_join_def envData_def entry_line_def)
qed

theorem writeEnvVariables_idempotent_counterexample:
  "content_at (snd (writeEnvVariables [(''A'', ''1'')] []
      (snd (writeEnvVariables [(''A'', ''1'')] [] empty_world)))) [''.env.local'']
   \<noteq> content_at (snd (writeEnvVariables [(''A'', ''1'')] [] empty_world)) [''.env.local'']"
  by (simp add: write_defs)

subsection \<open>getAvailablePort\<close>

lemma getAvailablePort_none:
  assumes "1 \<le> p" "\<forall>s. p \<le> s \<and> s \<le> 65535 \<longrightarrow> s \<notin> free"
  shows "getAvailablePort free e p = Inl RangeError"
  using assms
proof (induction "65536 - p" arbitrary: p)
  case 0
  then show ?case by (subst getAvailablePort.simps) simp
next
  case (Suc n)
  from Suc(2) have le: "p \<le> 65535" by simp
  with Suc(4) have nf: "p \<notin> free" by simp
  have "getAvailablePort free e (p + 1) = Inl RangeError"
    by (rule Suc(1)) (use Suc in auto)
  with le nf Suc(3) show ?case by (subst getAvailablePort.simps) simp
qed

lemma getAvailablePort_least:
  assumes "1 \<le> p" "q \<in> free" "p \<le> q" "q \<le> 65535"
  shows "\<exists>r. getAvailablePort free e p = Inr r \<and> r \<in> free \<and> p \<le> r \<and> r \<le> q \<and>
          (\<forall>s. p \<le> s \<and> s < r \<longrightarrow> s \<notin> free)"
  using assms
proof (induction "q - p" arbitrary: p)
  case 0
  then have "p = q" by simp
  with 0 show ?case by (subst getAvailablePort.simps) auto
next
  case (Suc n)
  show ?case
  proof (cases "p \<in> free")
    case True
    with Suc show ?thesis by (subst getAvailablePort.simps) auto
  next
    case False
    from Suc have "n = q - (p + 1)" "1 \<le> p + 1" "p + 1 \<le> q" by auto
    from Suc(1)[OF this(1,2) Suc(4) this(3) Suc(6)] obtain r where
      r: "getAvailablePort free e (p + 1) = Inr r" "r \<in> free" "p + 1 \<le> r" "r \<le> q"
         "\<forall>s. p + 1 \<le> s \<and> s < r \<longrightarrow> s \<notin> free" by blast
    have "getAvailablePort free e p = Inr r"
      using False r(1) Suc by (subst getAvailablePort.simps) auto
    moreover have "\<forall>s. p \<le> s \<and> s < r \<longrightarrow> s \<notin> free"
      using r(5) False by (metis Suc_eq_plus1 Suc_leI le_neq_implies_less)
    ultimately show ?thesis using r by auto
  qed
qed

text \<open>
  C8 (amended). Let \<open>startPort\<close> be at least 1.  If some port from \<open>startPort\<close> to 65535
  is free, \<open>getAvailablePort\<close> returns the lowest free port at or above \<open>startPort\<close>:
  \<open>startPort\<close> itself when that is free, a strictly greater port when it is occupied,
  every port in between being occupied.  If no port from \<open>startPort\<close> to 65535 is free,
  the probe reaches port 65536 and the promise is rejected with the \<^verbatim>\<open>RangeError\<close> of
  \<^verbatim>\<open>listen\<close>.
\<close>

theorem getAvailablePort_lowest:
  assumes "1 \<le> startPort"
  shows "(q \<in> free \<and> startPort \<le> q \<and> q \<le> 65535 \<longrightarrow>
           (\<exists>port. getAvailablePort free ephemeral startPort = Inr port \<and> port \<in> free \<and>
              startPort \<le> port \<and> (\<forall>s. startPort \<le> s \<and> s < port \<longrightarrow> s \<notin> free) \<and>
              (startPort \<in> free \<longrightarrow> port = startPort) \<and>
              (startPort \<notin> free \<longrightarrow> startPort < port))) \<and>
         ((\<forall>s. startPort \<le> s \<and> s \<le> 65535 \<longrightarrow> s \<notin> free) \<longrightarrow>
            getAvailablePort free ephemeral startPort = Inl RangeError)"
proof (intro conjI impI)
  assume a: "q \<in> free \<and> startPort \<le> q \<and> q \<le> 65535"
  from getAvailablePort_least[OF assms, of q free ephemeral] a obtain r where
    r: "getAvailablePort free ephemeral startPort = Inr r" "r \<in> free" "startPort \<le> r"
       "\<forall>s. startPort \<le> s \<and> s < r \<longrightarrow> s \<notin> free" by blast
  have "startPort \<in> free \<longrightarrow> r = startPort"
    using r(3,4) by (metis le_neq_implies_less order_refl)
  moreover have "startPort \<notin> free \<longrightarrow> startPort < r"
    using r(2,3) by (metis le_neq_implies_less)
  ultimately show "\<exists>port. getAvailablePort free ephemeral startPort = Inr port \<and> port \<in> free \<and>
              startPort \<le> port \<and> (\<forall>s. startPort \<le> s \<and> s < port \<longrightarrow> s \<notin> free) \<and>
              (startPort \<in> free \<longrightarrow> port = startPort) \<and>
              (startPort \<notin> free \<longrightarrow> startPort < port)"
    using r by blast
next
  assume "\<forall>s. startPort \<le> s \<and> s \<le> 65535 \<longrightarrow> s \<notin> free"
  with assms show "getAvailablePort free ephemeral startPort = Inl RangeError"
    by (rule getAvailablePort_none)
qed

theorem getAvailablePort_lowest_witness:
  "getAvailablePort {3002, 3005} None 3000 = Inr 3002 \<and>
   getAvailablePort {3000, 3005} None 3000 = Inr 3000 \<and>
   getAvailablePort {80, 3000} None 3001 = Inl RangeError"
proof -
  have s: "(1::nat) \<le> 3000" "(1::nat) \<le> 3001" by simp_all
  note i1 = getAvailablePort_lowest[OF s(1), of 3002 "{3002, 3005}" None]
  from i1 obtain port where
    p: "getAvailablePort {3002, 3005} None 3000 = Inr port" "port \<in> {3002, 3005}"
       "\<forall>s. 3000 \<le> s \<and> s < port \<longrightarrow> s \<notin> {3002, 3005::nat}" by auto
  have "port \<noteq> 3005"
  proof
    assume "port = 3005"
    with p(3)[rule_format, of 3002] show False by simp
  qed
  with p(2) have "port = 3002" by simp
  with p(1) have 1: "getAvailablePort {3002, 3005} None 3000 = Inr 3002" by simp
  from getAvailablePort_lowest[OF s(1), of 3000 "{3000, 3005}" None]
  have 2: "getAvailablePort {3000, 3005} None 3000 = Inr 3000"
    by auto
  from getAvailablePort_lowest[OF s(2), of 0 "{80, 3000}" None]
  have 3: "getAvailablePort {80, 3000} None 3001 = Inl RangeError"
    by auto
  from 1 2 3 show ?thesis by simp
qed

text \<open>
  The claim as it was stated, for every starting port and every set of free ports, fails when
  no port at or above the start is free: with port 80 alone free, the probe from 3000 returns
  no port, its promise is rejected.  It fails at the starting port 0 as well, where the
  operating system chooses the port: with the ports 3000 and 42631 free and 42631 the
  system's choice, the probe returns 42631, which is not the lowest free port.
\<close>

theorem getAvailablePort_counterexample:
  "getAvailablePort {80} (Some 49152) 3000 = Inl RangeError \<and>
   getAvailablePort {3000, 42631} (Some 42631) 0 = Inr 42631"
proof -
  have "getAvailablePort {80} (Some 49152) 3000 = Inl RangeError"
    by (rule getAvailablePort_none) simp_all
  moreover have "getAvailablePort {3000, 42631} (Some 42631) 0 = Inr 42631"
    by (subst getAvailablePort.simps) simp
  ultimately show ?thesis by simp
qed

subsection \<open>Validation failures\<close>

lemma integrateBucketCMS_not_next:
  assumes "projectDirAnswer inp = Some projectDir"
    and "fs_of_tree root (path_join projectDir [''package.json'']) = None \<or>
         fs_of_tree root (path_join projectDir [''next.config.js'']) = None"
  shows "integrateBucketCMS install inp root =
           (NotNextProject, \<lparr>tree = root, trace = []\<rparr>)"
  using assms
  by (auto simp: integrateBucketCMS_def checkIsNextProject_def existsSync_def files_def Let_def)

lemma integrateBucketCMS_no_app:
  assumes "projectDirAnswer inp = Some projectDir"
    and "readdir root projectDir = Some items"
    and "getAppDirectoryPath projectDir items = None"
  shows "integrateBucketCMS install inp root \<in>
           {(NotNextProject, \<lparr>tree = root, trace = []\<rparr>),
            (AppDirNotFound, \<lparr>tree = root, trace = []\<rparr>)}"
  using assms
  by (auto simp: integrateBucketCMS_def Let_def)

text \<open>
  C10. If the project directory the user chose lacks \<^verbatim>\<open>package.json\<close> or
  \<^verbatim>\<open>next.config.js\<close> directly inside it, or no directory named \<^verbatim>\<open>app\<close> is found
  below it, both orchestrators report the error and halt: the outcome is one of the two
  validation errors, no file-system call has been made and the files are those the run
  started with.
\<close>

theorem validation_failure_writes_nothing:
  assumes "projectDirAnswer inp = Some projectDir"
    and "fs_of_tree root (path_join projectDir [''package.json'']) = None \<or>
         fs_of_tree root (path_join projectDir [''next.config.js'']) = None \<or>
         (readdir root projectDir = Some items \<and> getAppDirectoryPath projectDir items = None)"
  shows "fst (integrateBucketCMS_index inp root) \<in> {NotNextProject, AppDirNotFound} \<and>
         snd (integrateBucketCMS_index inp root) = \<lparr>tree = root, trace = []\<rparr> \<and>
         fst (integrateBucketCMS_readme inp root) \<in> {NotNextProject, AppDirNotFound} \<and>
         snd (integrateBucketCMS_readme inp root) = \<lparr>tree = root, trace = []\<rparr>"
proof -
  have "fst (integrateBucketCMS install inp root) \<in> {NotNextProject, AppDirNotFound} \<and>
        snd (integrateBucketCMS install inp root) = \<lparr>tree = root, trace = []\<rparr>"
    for install
  proof (cases "fs_of_tree root (path_join projectDir [''package.json'']) = None \<or>
         fs_of_tree root (path_join projectDir [''next.config.js'']) = None")
    case True
    from integrateBucketCMS_not_next[OF assms(1) True] show ?thesis by simp
  next
    case False
    with assms(2) have "readdir root projectDir = Some items"
      "getAppDirectoryPath projectDir items = None" by auto
    from integrateBucketCMS_no_app[OF assms(1) this, of install] show ?thesis by auto
  qed
  then show ?thesis by (simp add: integrateBucketCMS_index_def integrateBucketCMS_readme_def)
qed

theorem validation_failure_writes_nothing_witness:
  "snd (integrateBucketCMS_index inputs0 tree_none) = \<lparr>tree = tree_none, trace = []\<rparr> \<and>
   snd (integrateBucketCMS_readme inputs0 tree_none) = \<lparr>tree = tree_none, trace = []\<rparr> \<and>
   fs_of_tree tree_none [''next.config.js''] = None \<and>
   snd (integrateBucketCMS_index inputs0 tree_no_app) = \<lparr>tree = tree_no_app, trace = []\<rparr> \<and>
   snd (integrateBucketCMS_readme inputs0 tree_no_app) = \<lparr>tree = tree_no_app, trace = []\<rparr> \<and>
   getAppDirectoryPath [] tree_no_app = None"
proof -
  have p: "projectDirAnswer inputs0 = Some []" by (simp add: inputs0_def)
  have a: "fs_of_tree tree_none (path_join [] [''next.config.js'']) = None"
    by (simp add: tree_none_def path_join_def)
  have b: "readdir tree_no_app [] = Some tree_no_app" by simp
  have c: "getAppDirectoryPath [] tree_no_app = None"
    by (simp add: getAppDirectoryPath_def tree_no_app_def path_join_def)
  from validation_failure_writes_nothing[OF p, of tree_none] a
  have 1: "snd (integrateBucketCMS_index inputs0 tree_none) = \<lparr>tree = tree_none, trace = []\<rparr>"
          "snd (integrateBucketCMS_readme inputs0 tree_none) = \<lparr>tree = tree_none, trace = []\<rparr>"
    by blast+
  from validation_failure_writes_nothing[OF p, of tree_no_app tree_no_app] b c
  have 2: "snd (integrateBucketCMS_index inputs0 tree_no_app) = \<lparr>tree = tree_no_app, trace = []\<rparr>"
          "snd (integrateBucketCMS_readme inputs0 tree_no_app) = \<lparr>tree = tree_no_app, trace = []\<rparr>"
    by blast+
  from 1 2 a c show ?thesis by (simp add: path_join_def)
qed

subsection \<open>The environment-variable step of index.js\<close>

lemma prompt_keys: "map fst (prompt inp questions) = map fst questions"
  by (simp add: prompt_def case_prod_beta o_def)

lemma no_length_field1: "map_of (prompt inp (questions1 d)) ''length'' = None"
  by (simp add: prompt_def questions1_def)

lemma no_length_field2: "map_of (prompt inp (questions2 d)) ''length'' = None"
  by (simp add: prompt_def questions2_def)

lemma promptForEnvVariables1_None: "promptForEnvVariables1 inp None w = (Inl TypeError, w)"
  by (simp add: promptForEnvVariables1_def getProjectName_def bind_def throw_def)

lemma envStep_index_unchanged: "envStep_index inp projectDir w = (Inl TypeError, w)"
  by (simp add: envStep_index_def bind_def promptForEnvVariables1_None)

lemma preserves_bind:
  "preserves P m \<Longrightarrow> (\<And>x. preserves P (f x)) \<Longrightarrow> preserves P (bind m f)"
  by (auto simp: preserves_def bind_def split: prod.splits sum.splits)

lemma preserves_return: "preserves P (return x)"
  by (simp add: preserves_def return_def)

lemma preserves_throw: "preserves P (throw x)"
  by (simp add: preserves_def throw_def)

lemma preserves_seq: "(\<And>m. m \<in> set ms \<Longrightarrow> preserves P m) \<Longrightarrow> preserves P (seq ms)"
  by (induction ms) (auto intro: preserves_bind preserves_return)

lemma preserves_if:
  "preserves P a \<Longrightarrow> preserves P b \<Longrightarrow> preserves P (\<lambda>w. if c w then a w else b w)"
  by (simp add: preserves_def)

lemma no_write_ops:
  "preserves no_write (remove p)" "preserves no_write (mkdir p)" "preserves no_write (ensureDir p)"
  "preserves no_write (copy p q)" "preserves no_write (git_clone inp p)"
  "preserves no_write (execa ok f a)" "preserves no_write (getDependenciesFromRepo inp)"
  by (auto simp: preserves_def no_write_def remove_def mkdir_def ensureDir_def copy_def
      git_clone_def execa_def getDependenciesFromRepo_def called_def is_write_def Let_def
      return_def throw_def split: option.splits node.splits prod.splits)

lemma no_write_envStep_index: "preserves no_write (envStep_index inp projectDir)"
  by (simp add: preserves_def envStep_index_unchanged)

lemma no_write_install_index: "preserves no_write (install_index inp projectDir appDir)"
  unfolding install_index_def Let_def
  by (intro preserves_seq) (auto intro!: preserves_if preserves_bind no_write_ops
      preserves_return no_write_envStep_index)

lemma readFile_world: "readFile p w = (r, w') \<Longrightarrow> w' = w"
  by (auto simp: readFile_def split: option.splits node.splits)

lemma readPackageJson_world: "readPackageJson inp p w = (r, w') \<Longrightarrow> w' = w"
  by (auto simp: readPackageJson_def bind_def return_def throw_def
      split: prod.splits sum.splits option.splits dest: readFile_world)

lemma getProjectName_world: "getProjectName inp arg w = (r, w') \<Longrightarrow> w' = w"
  by (auto simp: getProjectName_def bind_def return_def throw_def
      split: prod.splits sum.splits option.splits dest: readPackageJson_world)

lemma promptForEnvVariables1_result:
  "promptForEnvVariables1 inp arg w = (r, w') \<Longrightarrow>
   w' = w \<and> (case r of Inl e \<Rightarrow> True | Inr envVariables \<Rightarrow> (\<exists>d. envVariables = prompt inp (questions1 d)))"
  by (auto simp: promptForEnvVariables1_def bind_def return_def
      split: prod.splits sum.splits dest: getProjectName_world)

lemma length_gt_0_prompt1: "\<not> length_gt_0 (prompt inp (questions1 d))"
  by (simp add: length_gt_0_def no_length_field1)

lemma length_gt_0_prompt2: "\<not> length_gt_0 (prompt inp (questions2 d))"
  by (simp add: length_gt_0_def no_length_field2)

lemma guarded_write_unchanged:
  "snd (bind (promptForEnvVariables1 inp arg) (\<lambda>envVariables.
          if length_gt_0 envVariables then writeEnvVariables envVariables projectDir
          else return ()) w) = w"
proof (cases "promptForEnvVariables1 inp arg w")
  case (Pair r w')
  from promptForEnvVariables1_result[OF Pair] Pair show ?thesis
    by (cases r) (auto simp: bind_def return_def length_gt_0_prompt1)
qed

lemma no_write_integrate_index:
  "no_write (snd (integrateBucketCMS_index inp root))"
proof -
  have p: "preserves no_write (bind (install_index inp projectDir appDir) (\<lambda>_.
              bind (probePort inp 3000) (\<lambda>port.
              bind (startDevServer inp projectDir) (\<lambda>_. return port))))" for projectDir appDir
    by (auto intro!: preserves_bind no_write_install_index preserves_return no_write_ops
        simp: probePort_def startDevServer_def preserves_throw split: sum.splits)
  have z: "no_write \<lparr>tree = root, trace = []\<rparr>" by (simp add: no_write_def)
  show ?thesis
    unfolding integrateBucketCMS_index_def integrateBucketCMS_def Let_def
    using z p[unfolded preserves_def, rule_format, OF z]
    by (auto split: option.splits prod.splits sum.splits) (metis snd_conv)+
qed

text \<open>
  C6. In the orchestrator of \<^verbatim>\<open>src/index.js\<close> the environment-variable step never calls
  \<open>writeEnvVariables\<close> and leaves every file as it was: the step changes nothing in the
  world, whatever the prompt is called with, because an answers record has no \<open>length\<close>
  field and the guard \<open>envVariables.length > 0\<close> is false for it; and over the whole run
  no call of \<open>writeFile\<close> or \<open>appendFile\<close> is made.
\<close>

theorem env_step_index_never_writes:
  "snd (envStep_index inp projectDir w) = w \<and>
   snd (bind (promptForEnvVariables1 inp arg) (\<lambda>envVariables.
          if length_gt_0 envVariables then writeEnvVariables envVariables projectDir
          else return ()) w) = w \<and>
   map_of (prompt inp (questions1 d)) ''length'' = None \<and>
   \<not> length_gt_0 (prompt inp (questions1 d)) \<and>
   \<not> length_gt_0 (prompt inp (questions2 d)) \<and>
   list_all (\<lambda>c. \<not> is_write c) (trace (snd (integrateBucketCMS_index inp root)))"
  using no_write_integrate_index[of inp root]
  by (simp add: envStep_index_unchanged guarded_write_unchanged no_length_field1
      length_gt_0_prompt1 length_gt_0_prompt2 no_write_def)

theorem env_step_index_never_writes_witness:
  "snd (envStep_index inputs0 [] cloned_world) = cloned_world \<and>
   list_all (\<lambda>c. \<not> is_write c) (trace (snd (integrateBucketCMS_index inputs0 root0)))"
  using env_step_index_never_writes[of inputs0 "[]" cloned_world None "[]" root0] by simp

subsection \<open>The adapter is copied before the cleanup\<close>







lemma prefix_snoc_trans: "prefix (a @ [x]) b \<Longrightarrow> prefix a b"
  by (meson append_prefixD)

























lemmas io_defs = bind_def return_def throw_def copy_def remove_def mkdir_def ensureDir_def
  git_clone_def place_dir_def called_def execa_def getDependenciesFromRepo_def readFile_def
  existsSync_def files_def is_file_def del_entry_def
  readPackageJson_def getProjectName_def promptForEnvVariables2_def writeEnvVariables_def
  writeFile_def appendFile_def probePort_def startDevServer_def reportAuth_def
  configureAuth_def removeAuthDirectories_def checkIsNextProject_def path_join_def Let_def
  truthy_def hasNextAuth_def hasClerk_def getAppDirectoryPath_def






subsection \<open>The minimal host project\<close>

text \<open>
  C5. The minimal host project: a manifest without an auth dependency, \<^verbatim>\<open>next.config.js\<close>
  and an empty \<^verbatim>\<open>app\<close> directory, every collaborator succeeding.  The orchestrator that
  detects the auth solution takes the branch of the warning, whose \<^verbatim>\<open>chalk.orange\<close>
  throws: the run ends with the \<^verbatim>\<open>TypeError\<close> before any file-system call and the
  project is as it was, without configuration file, API routes or adapter.  The orchestrator
  of \<^verbatim>\<open>src/index.js\<close> installs the routes, then calls \<^verbatim>\<open>promptForEnvVariables()\<close>
  without the project directory, which throws: no configuration file is written; having no
  adapter step, it leaves the default \<^verbatim>\<open>get-session-user.ts\<close> of the template in place,
  and the \<^verbatim>\<open>next-auth\<close> directory copied with the routes.
\<close>

theorem minimal_host_run_throws:
  "integrateBucketCMS_readme inputs0 root0 = (Failed TypeError, \<lparr>tree = root0, trace = []\<rparr>) \<and>
   fst (integrateBucketCMS_index inputs0 root0) = Failed TypeError \<and>
   content_at (snd (integrateBucketCMS_index inputs0 root0)) [''.env.local''] = None \<and>
   files (snd (integrateBucketCMS_index inputs0 root0))
     [''app'', ''api'', ''bucket'', ''auth'', ''get-session-user.ts''] = Some (FileNode ''default'') \<and>
   files (snd (integrateBucketCMS_index inputs0 root0))
     [''app'', ''api'', ''bucket'', ''auth'', ''next-auth''] = Some DirNode"
proof -
  have 1: "integrateBucketCMS_readme inputs0 root0 = (Failed TypeError, \<lparr>tree = root0, trace = []\<rparr>)"
    by (simp add: integrateBucketCMS_readme_def integrateBucketCMS_def install_readme_def
        steps_before_auth_def inputs0_def root0_def no_auth_manifest_def io_defs)
  have "\<exists>tr. integrateBucketCMS_index inputs0 root0 =
    (Failed TypeError,
     \<lparr>tree =
       [File ''package.json'' ''{name: My Cool App!!}'',
        File ''next.config.js'' [],
        Dir ''app''
         [Dir ''api''
           [Dir ''bucket''
             [Dir ''items'' [File ''route.ts'' ''items''],
              Dir ''auth''
               [File ''get-session-user.ts'' ''default'',
                Dir ''next-auth'' [File ''get-session-user.ts'' ''nextauth''],
                Dir ''clerk'' [File ''get-session-user.ts'' ''clerk''],
                Dir ''localhost-only'' [File ''get-session-user.ts'' ''localhost'']]]]],
        Dir ''src'' [Dir ''app'' [Dir ''bucket'' [File ''page.tsx'' ''admin'']]]],
       trace = tr\<rparr>)"
    by (simp add: integrateBucketCMS_index_def integrateBucketCMS_def install_index_def
        envStep_index_unchanged inputs0_def root0_def no_auth_manifest_def template0_def io_defs)
  then obtain tr where 2: "integrateBucketCMS_index inputs0 root0 =
    (Failed TypeError,
     \<lparr>tree =
       [File ''package.json'' ''{name: My Cool App!!}'',
        File ''next.config.js'' [],
        Dir ''app''
         [Dir ''api''
           [Dir ''bucket''
             [Dir ''items'' [File ''route.ts'' ''items''],
              Dir ''auth''
               [File ''get-session-user.ts'' ''default'',
                Dir ''next-auth'' [File ''get-session-user.ts'' ''nextauth''],
                Dir ''clerk'' [File ''get-session-user.ts'' ''clerk''],
                Dir ''localhost-only'' [File ''get-session-user.ts'' ''localhost'']]]]],
        Dir ''src'' [Dir ''app'' [Dir ''bucket'' [File ''page.tsx'' ''admin'']]]],
       trace = tr\<rparr>)" by blast
  show ?thesis
    unfolding 1 2 by (simp add: content_at_def files_def)
qed

end
